theory Spec2Isabelle
  imports Main "HOL-Library.Char_ord" "HOL-Library.List_Lexorder"
begin

section \<open>The TextSecure cipher of INTERLOCK (src/src/textsecure.go)\<close>

text \<open>
  A shallow embedding of \<^verbatim>\<open>textsecure.go\<close>. Go strings are byte strings and are modelled
  as \<^typ>\<open>string\<close> (a list of bytes). Every function of the file that touches the disk,
  the transport or the status log takes the world and returns the world it leaves
  behind. The collaborators that the file calls but does not define (the configuration
  \<^verbatim>\<open>conf\<close>, \<^verbatim>\<open>absolutePath\<close>, \<^verbatim>\<open>relativePath\<close>, \<^verbatim>\<open>detectKeyPath\<close>, \<^verbatim>\<open>validateRequest\<close>,
  the volume manager, the transport library) are the fields of the record \<open>env\<close>.

  Each function is modelled as one sequential run. What runs beside it is not
  modelled: the listener goroutine that \<^verbatim>\<open>Activate\<close> starts, the timer that removes a
  notification, and a second request or an inbound message that touches the same files
  in the middle of a run. The functions of the Go library that the file calls
  (\<^verbatim>\<open>filepath.Join\<close>, \<^verbatim>\<open>filepath.Glob\<close>, \<^verbatim>\<open>regexp\<close>, \<^verbatim>\<open>os\<close>, \<^verbatim>\<open>ioutil\<close>, \<^verbatim>\<open>io.Copy\<close>, \<^verbatim>\<open>path.Base\<close>,
  \<^verbatim>\<open>bytes.IndexByte\<close>) are modelled after the documentation of the library.
\<close>

subsection \<open>Constants\<close>

definition contactExt :: string where
  "contactExt = ''textsecure''"

definition historySize :: nat where
  "historySize = 10 * 1024"

definition lineFeed :: char where
  "lineFeed = CHR 0x0A"

subsection \<open>Strings and paths (the parts of the Go library the file uses)\<close>

text \<open>\<open>stripPrefix p s\<close> is what follows \<open>p\<close> in \<open>s\<close> when \<open>s\<close> starts with \<open>p\<close>.\<close>

fun stripPrefix :: "string \<Rightarrow> string \<Rightarrow> string option" where
  "stripPrefix [] s = Some s"
| "stripPrefix (p # ps) [] = None"
| "stripPrefix (p # ps) (c # cs) = (if p = c then stripPrefix ps cs else None)"

definition stripSuffix :: "string \<Rightarrow> string \<Rightarrow> string option" where
  "stripSuffix p s = map_option rev (stripPrefix (rev p) (rev s))"

text \<open>\<open>hasSuffix s p\<close>: \<open>s\<close> ends with \<open>p\<close>.\<close>

definition hasSuffix :: "string \<Rightarrow> string \<Rightarrow> bool" where
  "hasSuffix s p = (stripSuffix p s \<noteq> None)"

text \<open>\<open>dropWhileEnd P s\<close> is \<open>s\<close> without its longest suffix of bytes that satisfy \<open>P\<close>.\<close>

definition dropWhileEnd :: "(char \<Rightarrow> bool) \<Rightarrow> string \<Rightarrow> string" where
  "dropWhileEnd P s = rev (dropWhile P (rev s))"

fun splitOn :: "char \<Rightarrow> string \<Rightarrow> string list" where
  "splitOn c [] = [[]]"
| "splitOn c (x # xs) =
     (if x = c then [] # splitOn c xs
      else (case splitOn c xs of y # ys \<Rightarrow> (x # y) # ys | [] \<Rightarrow> [[x]]))"

fun joinWith :: "string \<Rightarrow> string list \<Rightarrow> string" where
  "joinWith sep [] = []"
| "joinWith sep [e] = e"
| "joinWith sep (e # f # es) = e @ sep @ joinWith sep (f # es)"

text \<open>
  \<^verbatim>\<open>filepath.Clean\<close>: empty and \<^verbatim>\<open>.\<close> elements are dropped, an inner \<^verbatim>\<open>..\<close> removes the
  element before it, a \<^verbatim>\<open>..\<close> at the start of a rooted path is dropped, and the empty
  result is \<^verbatim>\<open>.\<close>. \<open>cleanElems\<close> keeps the elements written so far on a stack.
\<close>

fun cleanElems :: "bool \<Rightarrow> string list \<Rightarrow> string list \<Rightarrow> string list" where
  "cleanElems rooted out [] = rev out"
| "cleanElems rooted out (e # es) =
     (if e = [] \<or> e = ''.'' then cleanElems rooted out es
      else if e = ''..'' then
        (case out of
           [] \<Rightarrow> if rooted then cleanElems rooted [] es else cleanElems rooted [e] es
         | x # xs \<Rightarrow> if x = ''..'' then cleanElems rooted (e # out) es
                     else cleanElems rooted xs es)
      else cleanElems rooted (e # out) es)"

text \<open>
  A plain name is a name as a directory lists it: not empty, without a separator, and
  neither \<^verbatim>\<open>.\<close> nor \<^verbatim>\<open>..\<close>. The stacks that \<open>cleanElems\<close> builds hold plain names on top
  of \<^verbatim>\<open>..\<close> elements, the latter in a path that is not rooted only.
\<close>

definition plainName :: "string \<Rightarrow> bool" where
  "plainName e = (e \<noteq> [] \<and> CHR ''/'' \<notin> set e \<and> e \<noteq> ''.'' \<and> e \<noteq> ''..'')"

fun cleanStack :: "bool \<Rightarrow> string list \<Rightarrow> bool" where
  "cleanStack rooted [] = True"
| "cleanStack rooted (x # xs) =
     (if x = ''..'' then \<not> rooted \<and> list_all (\<lambda>y. y = ''..'') xs
      else plainName x \<and> cleanStack rooted xs)"

definition cleanPath :: "string \<Rightarrow> string" where
  "cleanPath p =
     (if p = [] then ''.''
      else
        (let rooted = (hd p = CHR ''/'');
             body = joinWith ''/'' (cleanElems rooted [] (splitOn CHR ''/'' p))
         in if rooted then CHR ''/'' # body
            else if body = [] then ''.'' else body))"

text \<open>\<^verbatim>\<open>filepath.Join\<close>: empty elements are ignored and the result is cleaned.\<close>

definition joinPath :: "string list \<Rightarrow> string" where
  "joinPath elems =
     (let es = filter (\<lambda>e. e \<noteq> []) elems
      in if es = [] then [] else cleanPath (joinWith ''/'' es))"

text \<open>\<^verbatim>\<open>path.Base\<close>: the last element of a path, trailing slashes removed first.\<close>

definition pathBase :: "string \<Rightarrow> string" where
  "pathBase p =
     (if p = [] then ''.''
      else
        (let q = rev (dropWhile (\<lambda>c. c = CHR ''/'') (rev p));
             b = rev (takeWhile (\<lambda>c. c \<noteq> CHR ''/'') (rev q))
         in if b = [] then ''/'' else b))"

subsection \<open>Errors and the data of the file\<close>

datatype error =
    InvalidContact
  | PrivateKeyDownload
  | InvalidNumberFormat string
  | NotRegistered
  | EnableFailed error
  | OsError string string
  | External string

text \<open>
  \<open>InvalidContact\<close> is \<^verbatim>\<open>errors.New("invalid contact")\<close>, \<open>PrivateKeyDownload\<close> is
  \<^verbatim>\<open>"downloading private key(s) is not allowed"\<close>, \<open>InvalidNumberFormat n\<close> is
  \<^verbatim>\<open>"invalid contact number format: n"\<close>, \<open>NotRegistered\<close> and \<open>EnableFailed\<close> are the two
  errors \<^verbatim>\<open>Activate\<close> returns. \<open>OsError call path\<close> is an error of the operating system
  and \<open>External\<close> one of a collaborator outside the file.
\<close>

record contactInfo =
  Name :: string
  Number :: string
  HistoryPath :: string
  AttachmentDir :: string

datatype jsonValue = JString string | JNumber int | JBool bool | JNull

type_synonym request = "string \<rightharpoonup> jsonValue"

datatype node = File string | Dir

type_synonym filesys = "(string \<times> node) list"

text \<open>An attachment received from the transport: the bytes the reader delivers, and
  the error that ends it if it does not end with EOF.\<close>

record reader =
  delivered :: string
  failure :: "error option"

text \<open>
  The environment: \<open>mountPoint\<close>, \<open>keyPath\<close> and \<open>testMode\<close> are the fields of \<^verbatim>\<open>conf\<close> that
  the file reads, \<open>registerFlag\<close> is the flag \<^verbatim>\<open>-r\<close>. \<open>absolutePath\<close>, \<open>relativePath\<close>,
  \<open>detectKeyPath\<close> and \<open>validateRequest\<close> are the helpers of the same names, with the
  results they return. \<open>regexpOther\<close> and \<open>globOther\<close> stand for the regular expressions
  and glob patterns outside the fragments modelled below. \<open>textsecureSendMessage\<close>,
  \<open>textsecureSendAttachment\<close> and \<open>textsecureSetup\<close> are the calls to the transport,
  \<open>authenticate\<close>, \<open>luksUnmount\<close> and \<open>luksClose\<close> those to the volume manager; the last four
  act on the disk. \<open>writeError\<close> gives the files on which a write fails and the error,
  \<open>tempSuffix\<close> the random suffixes of \<^verbatim>\<open>ioutil.TempFile\<close>, \<open>formatTime\<close> is \<^verbatim>\<open>Format\<close> with the
  layout \<^verbatim>\<open>timeFormat\<close>, \<open>timeNow\<close> is \<^verbatim>\<open>time.Now()\<close>, and the four lines are what the
  operator types at the prompts of \<^verbatim>\<open>Activate\<close>.
\<close>

record env =
  mountPoint :: string
  keyPath :: string
  testMode :: bool
  registerFlag :: bool
  absolutePath :: "string \<Rightarrow> error + string"
  relativePath :: "string \<Rightarrow> string \<times> error option"
  detectKeyPath :: "string \<Rightarrow> bool \<times> bool"
  validateRequest :: "request \<Rightarrow> string list \<Rightarrow> error option"
  regexpOther :: "string \<Rightarrow> (string \<times> string \<times> string) option"
  globOther :: "filesys \<Rightarrow> string \<Rightarrow> error + string list"
  textsecureSendMessage :: "string \<Rightarrow> string \<Rightarrow> error option"
  textsecureSendAttachment :: "string \<Rightarrow> string \<Rightarrow> node \<Rightarrow> error option"
  textsecureSetup :: "filesys \<Rightarrow> error option \<times> filesys"
  authenticate :: "string \<Rightarrow> string \<Rightarrow> bool \<Rightarrow> filesys \<Rightarrow> error option \<times> filesys"
  luksUnmount :: "filesys \<Rightarrow> filesys"
  luksClose :: "filesys \<Rightarrow> filesys"
  writeError :: "string \<Rightarrow> error option"
  tempSuffix :: "nat \<Rightarrow> string"
  formatTime :: "nat \<Rightarrow> string"
  timeNow :: nat
  volumeLine :: string
  disposeLine :: string
  passwordLine :: string
  numberLine :: string

subsection \<open>The storage layout\<close>

definition storagePath :: "env \<Rightarrow> string" where
  "storagePath env = joinPath [mountPoint env, keyPath env, ''textsecure'', ''private'']"

definition contactsPath :: "env \<Rightarrow> string" where
  "contactsPath env = joinPath [mountPoint env, ''textsecure'', ''contacts'']"

definition attachmentsPath :: "env \<Rightarrow> string" where
  "attachmentsPath env = joinPath [mountPoint env, ''textsecure'', ''attachments'']"

definition numberPath :: "env \<Rightarrow> string" where
  "numberPath env = joinPath [storagePath env, ''number'']"

subsection \<open>Numbers and contact paths\<close>

definition isDigit :: "char \<Rightarrow> bool" where
  "isDigit c = (c \<in> set ''0123456789'')"

definition digits1 :: "string \<Rightarrow> bool" where
  "digits1 ds = (ds \<noteq> [] \<and> list_all isDigit ds)"

text \<open>\<^verbatim>\<open>numberPattern.MatchString\<close> for \<^verbatim>\<open>^(?:\+|00)[0-9]+$\<close>.\<close>

definition numberPattern :: "string \<Rightarrow> bool" where
  "numberPattern s =
     (case stripPrefix ''+'' s of
        Some ds \<Rightarrow> digits1 ds
      | None \<Rightarrow> (case stripPrefix ''00'' s of Some ds \<Rightarrow> digits1 ds | None \<Rightarrow> False))"

text \<open>
  The ways to read \<open>s\<close> as a name, one space and a rest, the longest name first: the
  order in which the greedy \<^verbatim>\<open>[^/]*\<close> of the contact pattern tries them.
\<close>

fun spaceSplits :: "string \<Rightarrow> (string \<times> string) list" where
  "spaceSplits [] = []"
| "spaceSplits (c # cs) =
     map (\<lambda>(n, m). (c # n, m)) (spaceSplits cs) @ (if c = CHR '' '' then [([], cs)] else [])"

text \<open>
  The contacts root is spliced into the pattern of \<^verbatim>\<open>parseContact\<close> as it is (line 418), so
  it is read as a regular expression. The fragment of the Go syntax modelled here: a
  sequence of atoms, each an ASCII byte that is no operator and stands for itself, or
  \<^verbatim>\<open>.\<close>, which stands for any character but the line feed; an atom may be followed by
  one of the repetitions \<^verbatim>\<open>*\<close>, \<^verbatim>\<open>+\<close> and \<^verbatim>\<open>?\<close>. A repetition that follows a repetition
  (lazy, or invalid), groups, classes, alternation, anchors, counted repetition and
  escapes are outside the fragment, and so is a byte that is not ASCII.
\<close>

datatype quantifier = Once | Optional | Star | Plus

definition isRepeat :: "char \<Rightarrow> bool" where
  "isRepeat c = (c \<in> set ''*+?'')"

definition isAtom :: "char \<Rightarrow> bool" where
  "isAtom c = (c \<notin> set ''*+?()|[]{}^$'' \<and> c \<noteq> CHR 0x5C \<and> of_char c < (128 :: nat))"

definition quantifierOf :: "char \<Rightarrow> quantifier" where
  "quantifierOf c = (if c = CHR ''*'' then Star else if c = CHR ''+'' then Plus else Optional)"

text \<open>The atoms of a root with their repetitions; \<open>None\<close> outside the fragment.\<close>

fun parseRoot :: "string \<Rightarrow> (char \<times> quantifier) list option" where
  "parseRoot [] = Some []"
| "parseRoot [c] = (if isAtom c then Some [(c, Once)] else None)"
| "parseRoot (c # q # cs) =
     (if \<not> isAtom c then None
      else if isRepeat q then
        (if cs \<noteq> [] \<and> isRepeat (hd cs) then None
         else map_option (Cons (c, quantifierOf q)) (parseRoot cs))
      else map_option (Cons (c, Once)) (parseRoot (q # cs)))"

fun atomMatch :: "char \<Rightarrow> char \<Rightarrow> bool" where
  "atomMatch a c = (if a = CHR ''.'' then c \<noteq> lineFeed else c = a)"

text \<open>Whether the atoms, with their repetitions, match the whole of a string, byte by byte.\<close>

fun matchRoot :: "(char \<times> quantifier) list \<Rightarrow> string \<Rightarrow> bool" where
  "matchRoot [] s = (s = [])"
| "matchRoot ((a, Once) # is) [] = False"
| "matchRoot ((a, Once) # is) (c # cs) = (atomMatch a c \<and> matchRoot is cs)"
| "matchRoot ((a, Optional) # is) [] = matchRoot is []"
| "matchRoot ((a, Optional) # is) (c # cs) =
     (matchRoot is (c # cs) \<or> atomMatch a c \<and> matchRoot is cs)"
| "matchRoot ((a, Star) # is) [] = matchRoot is []"
| "matchRoot ((a, Star) # is) (c # cs) =
     (matchRoot is (c # cs) \<or> atomMatch a c \<and> matchRoot ((a, Star) # is) cs)"
| "matchRoot ((a, Plus) # is) [] = False"
| "matchRoot ((a, Plus) # is) (c # cs) = (atomMatch a c \<and> matchRoot ((a, Star) # is) cs)"

text \<open>A path before its last separator, and after it.\<close>

definition dirPart :: "string \<Rightarrow> string" where
  "dirPart path = butlast (dropWhileEnd (\<lambda>c. c \<noteq> CHR ''/'') path)"

definition filePart :: "string \<Rightarrow> string" where
  "filePart path = rev (takeWhile (\<lambda>c. c \<noteq> CHR ''/'') (rev path))"

text \<open>
  \<^verbatim>\<open>FindStringSubmatch\<close> for the pattern of \<^verbatim>\<open>parseContact\<close>,
  \<^verbatim>\<open>^ROOT/(([^/]*) ((?:\+|00)[0-9]+))\.textsecure$\<close>, where \<open>ROOT\<close> is in the fragment. The
  name, the space, the number and the extension hold no separator, so in a match the
  separator that follows \<open>ROOT\<close> is the last one of the path: \<open>ROOT\<close> has to match all that
  stands before it, and the groups are read from what stands after it. The result holds
  the groups 1, 2 and 3; \<open>None\<close> is the empty slice of a failed match.
\<close>

definition contactSubmatch ::
    "(char \<times> quantifier) list \<Rightarrow> string \<Rightarrow> (string \<times> string \<times> string) option" where
  "contactSubmatch items path =
     (if CHR ''/'' \<notin> set path \<or> \<not> matchRoot items (dirPart path) then None
      else
        (case stripSuffix (''.'' @ contactExt) (filePart path) of
           None \<Rightarrow> None
         | Some r1 \<Rightarrow>
             (case find (\<lambda>(name, num). CHR ''/'' \<notin> set name \<and> numberPattern num)
                     (spaceSplits r1) of
                None \<Rightarrow> None
              | Some (name, num) \<Rightarrow> Some (r1, name, num))))"

text \<open>
  The pattern is matched character by character and the model byte by byte. The two
  agree unless \<^verbatim>\<open>.\<close> meets a byte that is not ASCII, so a root with \<^verbatim>\<open>.\<close> is modelled on
  the paths that are ASCII before their last separator. That case, and a root outside
  the fragment, are left to \<open>regexpOther\<close>, a parameter; a root that makes the pattern
  invalid, so that \<^verbatim>\<open>regexp.MustCompile\<close> panics, is outside the model.
\<close>

definition findContact :: "env \<Rightarrow> string \<Rightarrow> (string \<times> string \<times> string) option" where
  "findContact env path =
     (case parseRoot (contactsPath env) of
        None \<Rightarrow> regexpOther env path
      | Some items \<Rightarrow>
          (if CHR ''.'' \<in> set (contactsPath env)
              \<and> \<not> list_all (\<lambda>c. of_char c < (128 :: nat)) (dirPart path)
           then regexpOther env path
           else contactSubmatch items path))"

definition parseContact :: "env \<Rightarrow> string \<Rightarrow> error + contactInfo" where
  "parseContact env path =
     (case findContact env path of
        None \<Rightarrow> Inl InvalidContact
      | Some (r1, r2, r3) \<Rightarrow>
          (case absolutePath env path of
             Inl e \<Rightarrow> Inl e
           | Inr _ \<Rightarrow>
               Inr \<lparr>Name = r2, Number = r3, HistoryPath = path,
                    AttachmentDir = joinPath [attachmentsPath env, r1]\<rparr>))"

subsection \<open>The world: the disk and the calls made\<close>

text \<open>
  The disk maps the paths the program passes to the operating system to the nodes they
  name; permissions are not modelled. \<open>calls\<close> lists, oldest first, the calls made to the
  operating system, the transport, the volume manager and the status log; a call to
  the transport is listed with the error it returned. \<open>entropy\<close> counts the random
  suffixes \<^verbatim>\<open>ioutil.TempFile\<close> has drawn.
\<close>

datatype call =
    OsStat string
  | OsOpen string
  | OsOpenFile string
  | OsMkdirAll string
  | FileWrite string string
  | IoutilTempFile string string
  | IoCopy string
  | IoutilReadAll string
  | FilepathGlob string
  | TextsecureSendMessage string string "error option"
  | TextsecureSendAttachment string string string "error option"
  | TextsecureSetup
  | TextsecureListenForMessages
  | StatusLog string
  | StatusError error
  | StatusNotify string
  | AuthenticateVolume string
  | LuksUnmount
  | LuksClose

record world =
  fs :: filesys
  calls :: "call list"
  entropy :: nat

definition called :: "call \<Rightarrow> world \<Rightarrow> world" where
  "called c w = w\<lparr>calls := calls w @ [c]\<rparr>"

text \<open>The calls made between an earlier world and a later one.\<close>

definition newCalls :: "world \<Rightarrow> world \<Rightarrow> call list" where
  "newCalls w w' = drop (length (calls w)) (calls w')"

text \<open>A call to the transport that returned an error.\<close>

fun transportFailure :: "call \<Rightarrow> bool" where
  "transportFailure (TextsecureSendMessage n m r) = (r \<noteq> None)"
| "transportFailure (TextsecureSendAttachment n m p r) = (r \<noteq> None)"
| "transportFailure c = False"

text \<open>The calls that create, open for writing or write a file or a directory.\<close>

fun writesDisk :: "call \<Rightarrow> bool" where
  "writesDisk (OsOpenFile p) = True"
| "writesDisk (OsMkdirAll p) = True"
| "writesDisk (FileWrite p b) = True"
| "writesDisk (IoutilTempFile d p) = True"
| "writesDisk (IoCopy p) = True"
| "writesDisk c = False"



definition nodeAt :: "filesys \<Rightarrow> string \<Rightarrow> node option" where
  "nodeAt disk p = (if p = ''/'' then Some Dir else map_of disk p)"

text \<open>Writing a node: in place where the path is on the disk, as a new entry otherwise.\<close>

fun putNode :: "string \<Rightarrow> node \<Rightarrow> filesys \<Rightarrow> filesys" where
  "putNode p n [] = [(p, n)]"
| "putNode p n (e # es) = (if fst e = p then (p, n) # es else e # putNode p n es)"

text \<open>
  The index \<^verbatim>\<open>j\<close> that \<^verbatim>\<open>os.MkdirAll\<close> computes: where the last element of the path starts,
  trailing separators skipped. The parent is \<^verbatim>\<open>path[0:j-1]\<close> when \<^verbatim>\<open>j > 1\<close>; otherwise the
  element lies in the root or in the working directory, which exist. The empty path
  names nothing.
\<close>

definition elemStart :: "string \<Rightarrow> nat" where
  "elemStart p =
     length (dropWhileEnd (\<lambda>c. c \<noteq> CHR ''/'') (dropWhileEnd (\<lambda>c. c = CHR ''/'') p))"

definition parentIsDir :: "filesys \<Rightarrow> string \<Rightarrow> bool" where
  "parentIsDir disk p =
     (p \<noteq> [] \<and> (elemStart p \<le> 1 \<or> nodeAt disk (take (elemStart p - 1) p) = Some Dir))"

text \<open>\<^verbatim>\<open>os.Mkdir\<close>.\<close>

definition mkdir :: "filesys \<Rightarrow> string \<Rightarrow> error + filesys" where
  "mkdir disk p =
     (if nodeAt disk p \<noteq> None then Inl (OsError ''mkdir'' p)
      else if parentIsDir disk p then Inr (putNode p Dir disk)
      else Inl (OsError ''mkdir'' p))"

lemma elemStart_le: "elemStart p \<le> length p"
proof -
  have "length (dropWhileEnd P xs) \<le> length xs" for P and xs :: string
    using length_dropWhile_le [of P "rev xs"] by (simp add: dropWhileEnd_def)
  from this [of "\<lambda>c. c \<noteq> CHR ''/''" "dropWhileEnd (\<lambda>c. c = CHR ''/'') p"]
    this [of "\<lambda>c. c = CHR ''/''" p]
  show ?thesis by (simp add: elemStart_def)
qed

text \<open>
  \<^verbatim>\<open>os.MkdirAll\<close>: nothing to do for a directory, an error for a file; otherwise the
  parent is made first and then the directory itself.
\<close>

function mkdirAll :: "filesys \<Rightarrow> string \<Rightarrow> error + filesys" where
  "mkdirAll disk p =
     (case nodeAt disk p of
        Some Dir \<Rightarrow> Inr disk
      | Some (File c) \<Rightarrow> Inl (OsError ''mkdir'' p)
      | None \<Rightarrow>
          (if 1 < elemStart p then
             (case mkdirAll disk (take (elemStart p - 1) p) of
                Inl e \<Rightarrow> Inl e
              | Inr disk' \<Rightarrow> mkdir disk' p)
           else mkdir disk p))"
  by pat_completeness auto
termination
proof (relation "measure (\<lambda>(disk, p). length p)")
  show "wf (measure (\<lambda>(disk, p). length p))" by simp
next
  fix disk :: filesys and p :: string
  assume "1 < elemStart p"
  then show "((disk, take (elemStart p - 1) p), (disk, p)) \<in> measure (\<lambda>(disk, p). length p)"
    using elemStart_le [of p] by simp
qed

declare mkdirAll.simps [simp del]

text \<open>\<open>grown disk disk'\<close>: the later disk has every node of the earlier one unchanged, and
  beyond them only new directories.\<close>

definition grown :: "filesys \<Rightarrow> filesys \<Rightarrow> bool" where
  "grown disk disk' =
     (\<forall>q. nodeAt disk' q = nodeAt disk q \<or> nodeAt disk q = None \<and> nodeAt disk' q = Some Dir)"

definition osMkdirAll :: "world \<Rightarrow> string \<Rightarrow> error option \<times> world" where
  "osMkdirAll w p =
     (case mkdirAll (fs w) p of
        Inl e \<Rightarrow> (Some e, called (OsMkdirAll p) w)
      | Inr disk \<Rightarrow> (None, called (OsMkdirAll p) (w\<lparr>fs := disk\<rparr>)))"

text \<open>\<^verbatim>\<open>os.Stat\<close>: the node, or an error where there is none.\<close>

definition osStat :: "world \<Rightarrow> string \<Rightarrow> (error + node) \<times> world" where
  "osStat w p =
     (case nodeAt (fs w) p of
        None \<Rightarrow> (Inl (OsError ''stat'' p), called (OsStat p) w)
      | Some n \<Rightarrow> (Inr n, called (OsStat p) w))"

text \<open>\<^verbatim>\<open>os.Open\<close>, for reading: a file or a directory can be opened.\<close>

definition osOpen :: "world \<Rightarrow> string \<Rightarrow> (error + node) \<times> world" where
  "osOpen w p =
     (case nodeAt (fs w) p of
        None \<Rightarrow> (Inl (OsError ''open'' p), called (OsOpen p) w)
      | Some n \<Rightarrow> (Inr n, called (OsOpen p) w))"

text \<open>
  \<^verbatim>\<open>os.OpenFile\<close> with \<^verbatim>\<open>O_WRONLY|O_CREATE\<close> and either \<^verbatim>\<open>O_APPEND\<close> or \<^verbatim>\<open>O_TRUNC\<close> (\<open>trunc\<close>):
  a directory cannot be opened for writing, a file is opened (and emptied under
  \<^verbatim>\<open>O_TRUNC\<close>), and a missing file is created empty where its parent is a directory.
\<close>

definition osOpenFile :: "world \<Rightarrow> string \<Rightarrow> bool \<Rightarrow> error option \<times> world" where
  "osOpenFile w p trunc =
     (case nodeAt (fs w) p of
        Some Dir \<Rightarrow> (Some (OsError ''open'' p), called (OsOpenFile p) w)
      | Some (File c) \<Rightarrow>
          (None, called (OsOpenFile p)
                   (if trunc then w\<lparr>fs := putNode p (File []) (fs w)\<rparr> else w))
      | None \<Rightarrow>
          (if parentIsDir (fs w) p
           then (None, called (OsOpenFile p) (w\<lparr>fs := putNode p (File []) (fs w)\<rparr>))
           else (Some (OsError ''open'' p), called (OsOpenFile p) w)))"

text \<open>
  \<^verbatim>\<open>Write\<close> on a file opened for writing at its end. \<open>writeError\<close> says for which files
  the device refuses the write; nothing is written then.
\<close>

definition fileWrite :: "env \<Rightarrow> world \<Rightarrow> string \<Rightarrow> string \<Rightarrow> error option \<times> world" where
  "fileWrite env w p bytes =
     (case writeError env p of
        Some e \<Rightarrow> (Some e, called (FileWrite p bytes) w)
      | None \<Rightarrow>
          (case nodeAt (fs w) p of
             Some (File c) \<Rightarrow>
               (None, called (FileWrite p bytes) (w\<lparr>fs := putNode p (File (c @ bytes)) (fs w)\<rparr>))
           | _ \<Rightarrow> (Some (OsError ''write'' p), called (FileWrite p bytes) w)))"

text \<open>\<^verbatim>\<open>ioutil.ReadAll\<close> on an opened node, from offset \<open>off\<close>.\<close>

definition ioutilReadAll :: "world \<Rightarrow> string \<Rightarrow> node \<Rightarrow> nat \<Rightarrow> (error + string) \<times> world" where
  "ioutilReadAll w p n off =
     (case n of
        File c \<Rightarrow> (Inr (drop off c), called (IoutilReadAll p) w)
      | Dir \<Rightarrow> (Inl (OsError ''read'' p), called (IoutilReadAll p) w))"

text \<open>
  \<^verbatim>\<open>ioutil.TempFile\<close>: up to 10000 names \<^verbatim>\<open>dir/prefix<suffix>\<close> are tried, each with a fresh
  random suffix; a name that exists is skipped, any other failure ends the search.
\<close>

fun tempFileTry :: "env \<Rightarrow> filesys \<Rightarrow> string \<Rightarrow> string \<Rightarrow> nat \<Rightarrow> nat
    \<Rightarrow> (error + string \<times> filesys) \<times> nat" where
  "tempFileTry env disk dir prefix seed 0 = (Inl (OsError ''open'' dir), seed)"
| "tempFileTry env disk dir prefix seed (Suc n) =
     (let name = joinPath [dir, prefix @ tempSuffix env seed]
      in case nodeAt disk name of
           Some x \<Rightarrow> tempFileTry env disk dir prefix (Suc seed) n
         | None \<Rightarrow>
             (if parentIsDir disk name
              then (Inr (name, putNode name (File []) disk), Suc seed)
              else (Inl (OsError ''open'' name), Suc seed)))"

definition ioutilTempFile :: "env \<Rightarrow> world \<Rightarrow> string \<Rightarrow> string \<Rightarrow> (error + string) \<times> world" where
  "ioutilTempFile env w dir prefix =
     (case tempFileTry env (fs w) dir prefix (entropy w) 10000 of
        (Inl e, seed) \<Rightarrow> (Inl e, called (IoutilTempFile dir prefix) (w\<lparr>entropy := seed\<rparr>))
      | (Inr (name, disk), seed) \<Rightarrow>
          (Inr name, called (IoutilTempFile dir prefix) (w\<lparr>fs := disk, entropy := seed\<rparr>)))"

text \<open>
  \<^verbatim>\<open>io.Copy\<close> from a reader into a file just created: the bytes the reader delivers are
  written, and the error is the write error or else the error that ended the reader.
\<close>

definition ioCopy :: "env \<Rightarrow> world \<Rightarrow> string \<Rightarrow> reader \<Rightarrow> error option \<times> world" where
  "ioCopy env w p r =
     (case writeError env p of
        Some e \<Rightarrow> (Some e, called (IoCopy p) w)
      | None \<Rightarrow>
          (case nodeAt (fs w) p of
             Some (File c) \<Rightarrow>
               (failure r,
                called (IoCopy p) (w\<lparr>fs := putNode p (File (c @ delivered r)) (fs w)\<rparr>))
           | _ \<Rightarrow> (Some (OsError ''write'' p), called (IoCopy p) w)))"

subsection \<open>\<^verbatim>\<open>filepath.Glob\<close>\<close>

definition hasMeta :: "string \<Rightarrow> bool" where
  "hasMeta s = (\<exists>c \<in> set s. c \<in> set ''*?['' \<or> c = CHR 0x5C)"

text \<open>
  \<^verbatim>\<open>filepath.Match\<close> for patterns of \<^verbatim>\<open>*\<close> and literal bytes: \<^verbatim>\<open>*\<close> matches any sequence of
  bytes other than the separator.
\<close>

fun globMatch :: "string \<Rightarrow> string \<Rightarrow> bool" where
  "globMatch [] [] = True"
| "globMatch [] (c # cs) = False"
| "globMatch (p # ps) [] = (p = CHR ''*'' \<and> globMatch ps [])"
| "globMatch (p # ps) (c # cs) =
     (if p = CHR ''*'' then globMatch ps (c # cs) \<or> (c \<noteq> CHR ''/'' \<and> globMatch (p # ps) cs)
      else p = c \<and> globMatch ps cs)"

text \<open>The names of the entries of a directory, as \<^verbatim>\<open>Readdirnames\<close> lists them.\<close>

definition dirNames :: "filesys \<Rightarrow> string \<Rightarrow> string list" where
  "dirNames disk dir =
     remdups (List.map_filter
       (\<lambda>(p, n). case stripPrefix (if dir = ''/'' then dir else dir @ ''/'') p of
                   None \<Rightarrow> None
                 | Some name \<Rightarrow> if name \<noteq> [] \<and> CHR ''/'' \<notin> set name then Some name else None)
       disk)"

text \<open>
  \<^verbatim>\<open>filepath.Glob\<close>: the pattern is split at its last separator; the names of the
  directory are sorted and those that match the last element are joined to the
  directory. A directory part with a metacharacter, a last element with \<^verbatim>\<open>?\<close>, a
  character class or an escape, and a pattern without any metacharacter are left to
  \<open>globOther\<close>, a parameter.
\<close>

definition globDir :: "string \<Rightarrow> string" where
  "globDir pattern =
     (let d = dropWhileEnd (\<lambda>c. c \<noteq> CHR ''/'') pattern
      in if d = [] then ''.'' else if d = ''/'' then d else butlast d)"

definition globFile :: "string \<Rightarrow> string" where
  "globFile pattern = rev (takeWhile (\<lambda>c. c \<noteq> CHR ''/'') (rev pattern))"

definition glob :: "env \<Rightarrow> filesys \<Rightarrow> string \<Rightarrow> error + string list" where
  "glob env disk pattern =
     (if hasMeta (globDir pattern) \<or> CHR ''?'' \<in> set (globFile pattern)
         \<or> CHR ''['' \<in> set (globFile pattern)
         \<or> CHR 0x5C \<in> set (globFile pattern) \<or> \<not> hasMeta pattern
      then globOther env disk pattern
      else if nodeAt disk (globDir pattern) \<noteq> Some Dir then Inr []
      else Inr (map (\<lambda>n. joinPath [globDir pattern, n])
                 (filter (globMatch (globFile pattern)) (sort (dirNames disk (globDir pattern))))))"

definition filepathGlob :: "env \<Rightarrow> world \<Rightarrow> string \<Rightarrow> (error + string list) \<times> world" where
  "filepathGlob env w pattern = (glob env (fs w) pattern, called (FilepathGlob pattern) w)"

subsection \<open>The functions of the file\<close>

definition statusLog :: "string \<Rightarrow> world \<Rightarrow> world" where
  "statusLog s w = called (StatusLog s) w"

definition statusError :: "error \<Rightarrow> world \<Rightarrow> world" where
  "statusError e w = called (StatusError e) w"

text \<open>\<^verbatim>\<open>updateHistory\<close> (lines 475-489). The result of \<^verbatim>\<open>output.Write\<close> is not read.\<close>

definition updateHistory ::
    "env \<Rightarrow> world \<Rightarrow> contactInfo \<Rightarrow> string \<Rightarrow> string \<Rightarrow> nat \<Rightarrow> error option \<times> world" where
  "updateHistory env w contact msg prefix t =
     (case osOpenFile w (HistoryPath contact) False of
        (Some err, w1) \<Rightarrow> (Some err, statusError err w1)
      | (None, w1) \<Rightarrow>
          (let h = formatTime env t @ '' '' @ prefix @ '' '' @ msg @ [lineFeed]
           in (None, snd (fileWrite env w1 (HistoryPath contact) h))))"

text \<open>\<^verbatim>\<open>getContact\<close> (lines 443-473).\<close>

definition getContact :: "env \<Rightarrow> world \<Rightarrow> string \<Rightarrow> (error + contactInfo) \<times> world" where
  "getContact env w number =
     (if \<not> numberPattern number then (Inl (InvalidNumberFormat number), w)
      else
        (case osMkdirAll w (contactsPath env) of
           (Some err, w1) \<Rightarrow> (Inl err, w1)
         | (None, w1) \<Rightarrow>
             (case filepathGlob env w1
                     (contactsPath env @ ''/'' @ ''*'' @ number @ ''.'' @ contactExt) of
                (Inl err, w2) \<Rightarrow> (Inl err, w2)
              | (Inr contacts, w2) \<Rightarrow>
                  (case contacts of
                     [] \<Rightarrow>
                       (Inr \<lparr>Name = ''Unknown'', Number = number,
                             HistoryPath =
                               joinPath [contactsPath env, ''Unknown '' @ number @ ''.'' @ contactExt],
                             AttachmentDir = joinPath [attachmentsPath env, ''Unknown '' @ number]\<rparr>,
                        w2)
                   | c # cs \<Rightarrow> (parseContact env c, w2)))))"

text \<open>\<^verbatim>\<open>saveAttachment\<close> (lines 393-415). The results of \<^verbatim>\<open>io.Copy\<close> and the error of
  \<^verbatim>\<open>relativePath\<close> are not read.\<close>

definition saveAttachment ::
    "env \<Rightarrow> world \<Rightarrow> contactInfo \<Rightarrow> reader \<Rightarrow> (error + string) \<times> world" where
  "saveAttachment env w contact attachment =
     (let attachmentPath = AttachmentDir contact
      in case osMkdirAll w attachmentPath of
           (Some err, w1) \<Rightarrow> (Inl err, w1)
         | (None, w1) \<Rightarrow>
             (case ioutilTempFile env w1 attachmentPath ''attachment_'' of
                (Inl err, w2) \<Rightarrow> (Inl err, w2)
              | (Inr output, w2) \<Rightarrow>
                  (let w3 = snd (ioCopy env w2 output attachment);
                       w4 = statusLog (''saved attachment from '' @ Name contact @ '' ''
                                        @ Number contact @ [lineFeed]) w3
                   in (Inr (fst (relativePath env output)), w4))))"

text \<open>An inbound message of the transport.\<close>

record message =
  source :: string
  messageText :: string
  timestamp :: nat
  attachments :: "reader list"








text \<open>
  A handler answers with a response, or panics where a type assertion \<^verbatim>\<open>.(string)\<close>
  meets a value that is not a string.
\<close>

datatype response = StatusOK "string option" | ErrorResponse error

datatype outcome = Panic | Response response

text \<open>
  \<^verbatim>\<open>sendMessage\<close> (lines 197-273). \<open>parsed\<close> is what \<^verbatim>\<open>parseRequest\<close> returned for the HTTP
  request.
\<close>

definition sendMessage :: "env \<Rightarrow> world \<Rightarrow> error + request \<Rightarrow> outcome \<times> world" where
  "sendMessage env w parsed =
     (case parsed of
        Inl err \<Rightarrow> (Response (ErrorResponse err), w)
      | Inr req \<Rightarrow>
     (case validateRequest env req [''contact:s'', ''msg:s''] of
        Some err \<Rightarrow> (Response (ErrorResponse err), w)
      | None \<Rightarrow>
     (case req ''msg'' of
        Some (JString msg) \<Rightarrow>
     (case req ''contact'' of
        Some (JString c) \<Rightarrow>
     (case absolutePath env c of
        Inl err \<Rightarrow> (Response (ErrorResponse err), w)
      | Inr contactPath \<Rightarrow>
     (case parseContact env contactPath of
        Inl err \<Rightarrow> (Response (ErrorResponse err), w)
      | Inr contact \<Rightarrow>
     (case req ''attachment'' of
        Some a \<Rightarrow>
          (case a of
             JString s \<Rightarrow>
               (case absolutePath env s of
                  Inl err \<Rightarrow> (Response (ErrorResponse err), w)
                | Inr attachmentPath \<Rightarrow>
                    (case detectKeyPath env attachmentPath of
                       (inKeyPath, private) \<Rightarrow>
                    if inKeyPath \<and> private
                    then (Response (ErrorResponse PrivateKeyDownload), w)
                    else
                      (case osOpen w attachmentPath of
                         (Inl err, w1) \<Rightarrow> (Response (ErrorResponse err), w1)
                       | (Inr attachment, w1) \<Rightarrow>
                           (let w2 = called (TextsecureSendAttachment (Number contact) msg
                                       attachmentPath
                                       (textsecureSendAttachment env (Number contact) msg attachment))
                                       w1
                            in case textsecureSendAttachment env (Number contact) msg attachment of
                                 Some err \<Rightarrow> (Response (ErrorResponse err), w2)
                               | None \<Rightarrow>
                                   (case updateHistory env w2 contact
                                           (''['' @ pathBase attachmentPath @ ''] '' @ msg) ''>''
                                           (timeNow env) of
                                      (Some err, w3) \<Rightarrow> (Response (ErrorResponse err), w3)
                                    | (None, w3) \<Rightarrow> (Response (StatusOK None), w3))))))
           | _ \<Rightarrow> (Panic, w))
      | None \<Rightarrow>
          (let w1 = called (TextsecureSendMessage (Number contact) msg
                              (textsecureSendMessage env (Number contact) msg)) w
           in case textsecureSendMessage env (Number contact) msg of
                Some err \<Rightarrow> (Response (ErrorResponse err), w1)
              | None \<Rightarrow>
                  (case updateHistory env w1 contact msg ''>'' (timeNow env) of
                     (Some err, w2) \<Rightarrow> (Response (ErrorResponse err), w2)
                   | (None, w2) \<Rightarrow> (Response (StatusOK None), w2))))))
      | _ \<Rightarrow> (Panic, w))
      | _ \<Rightarrow> (Panic, w))))"

text \<open>
  The tail of \<^verbatim>\<open>downloadHistory\<close> (lines 313-340) on a file of content \<open>content\<close>:
  \<^verbatim>\<open>Seek\<close> to \<^verbatim>\<open>size - historySize\<close> where the size exceeds \<^verbatim>\<open>historySize\<close>, \<^verbatim>\<open>ReadAll\<close>, and
  the slice \<^verbatim>\<open>history[trimOffset:]\<close>.
\<close>

fun indexByte :: "string \<Rightarrow> char \<Rightarrow> int" where
  "indexByte [] c = - 1"
| "indexByte (b # bs) c =
     (if b = c then 0 else (let i = indexByte bs c in if i < 0 then - 1 else i + 1))"

definition seekOffset :: "string \<Rightarrow> nat" where
  "seekOffset content =
     (if length content > historySize then length content - historySize else 0)"

definition trimOffset :: "string \<Rightarrow> string \<Rightarrow> int" where
  "trimOffset content history =
     (if length content > historySize
      then (let i = indexByte history lineFeed in if i < 0 then 0 else i)
      else 0)"

definition historyTail :: "string \<Rightarrow> string" where
  "historyTail content =
     (let history = drop (seekOffset content) content
      in drop (nat (trimOffset content history)) history)"

text \<open>\<^verbatim>\<open>downloadHistory\<close> (lines 275-343).\<close>

definition downloadHistory :: "env \<Rightarrow> world \<Rightarrow> error + request \<Rightarrow> outcome \<times> world" where
  "downloadHistory env w parsed =
     (case parsed of
        Inl err \<Rightarrow> (Response (ErrorResponse err), w)
      | Inr req \<Rightarrow>
     (case validateRequest env req [''contact:s''] of
        Some err \<Rightarrow> (Response (ErrorResponse err), w)
      | None \<Rightarrow>
     (case req ''contact'' of
        Some (JString c) \<Rightarrow>
     (case absolutePath env c of
        Inl err \<Rightarrow> (Response (ErrorResponse err), w)
      | Inr contactPath \<Rightarrow>
     (case parseContact env contactPath of
        Inl err \<Rightarrow> (Response (ErrorResponse err), w)
      | Inr contact \<Rightarrow>
     (case osOpen w contactPath of
        (Inl err, w1) \<Rightarrow> (Response (ErrorResponse err), w1)
      | (Inr input, w1) \<Rightarrow>
          (let w2 = called (OsStat contactPath) w1
           in case input of
                Dir \<Rightarrow>
                  (case ioutilReadAll w2 contactPath input 0 of
                     (Inl err, w3) \<Rightarrow> (Response (ErrorResponse err), w3)
                   | (Inr history, w3) \<Rightarrow> (Response (StatusOK (Some history)), w3))
              | File content \<Rightarrow>
                  (case ioutilReadAll w2 contactPath input (seekOffset content) of
                     (Inl err, w3) \<Rightarrow> (Response (ErrorResponse err), w3)
                   | (Inr history, w3) \<Rightarrow>
                       (Response (StatusOK
                          (Some (drop (nat (trimOffset content history)) history))), w3))))))
      | _ \<Rightarrow> (Panic, w))))"

subsection \<open>Registration\<close>

text \<open>\<^verbatim>\<open>needsRegistration\<close> (lines 491-502); \<^verbatim>\<open>%09d\<close> of \<^verbatim>\<open>0xffffff\<close> is \<^verbatim>\<open>016777215\<close>.\<close>

definition lastResortKey :: "env \<Rightarrow> string" where
  "lastResortKey env = joinPath [storagePath env, ''prekeys'', ''016777215'']"

definition needsRegistration :: "env \<Rightarrow> world \<Rightarrow> bool \<times> world" where
  "needsRegistration env w =
     (case osStat w (lastResortKey env) of
        (Inl err, w1) \<Rightarrow> (True, w1)
      | (Inr n, w1) \<Rightarrow> (False, w1))"

text \<open>\<^verbatim>\<open>registeredNumber\<close> (lines 504-521).\<close>

definition registeredNumber :: "env \<Rightarrow> world \<Rightarrow> (string \<times> error option) \<times> world" where
  "registeredNumber env w =
     (case osOpen w (numberPath env) of
        (Inl err, w1) \<Rightarrow> (([], Some err), w1)
      | (Inr input, w1) \<Rightarrow>
          (case ioutilReadAll w1 (numberPath env) input 0 of
             (Inl err, w2) \<Rightarrow> (([], Some err), w2)
           | (Inr n, w2) \<Rightarrow> ((n, None), w2)))"

text \<open>
  How a run of \<^verbatim>\<open>Activate\<close> ends: it returns the cipher (or nil) and an error (or nil),
  or the process ends in \<^verbatim>\<open>log.Fatal\<close>, or in \<^verbatim>\<open>os.Exit(0)\<close> after a registration.
\<close>

datatype fatal =
    FatalError error
  | FailedToSaveNumber error
  | AlreadyRegistered string string

datatype activation = Returned bool "error option" | Fatal fatal | Exit0

text \<open>The two fields of \<^verbatim>\<open>textSecure\<close> that \<^verbatim>\<open>Activate\<close> assigns.\<close>

record textSecure =
  number :: string
  client :: bool

definition lock :: "env \<Rightarrow> world \<Rightarrow> world" where
  "lock env w =
     (if testMode env then w
      else called LuksClose
             ((called LuksUnmount (w\<lparr>fs := luksUnmount env (fs w)\<rparr>))
                \<lparr>fs := luksClose env (luksUnmount env (fs w))\<rparr>))"

text \<open>
  The second half of \<^verbatim>\<open>Activate\<close> (lines 126-177), which every run that gets past the
  registration prompts goes through.
\<close>

definition enable :: "env \<Rightarrow> world \<Rightarrow> textSecure \<Rightarrow> bool \<Rightarrow> activation \<times> textSecure \<times> world" where
  "enable env w t postAuth =
     (case osMkdirAll w (storagePath env) of
        (Some err, w1) \<Rightarrow> (Fatal (FatalError err), t, w1)
      | (None, w1) \<Rightarrow>
          (case registeredNumber env w1 of
             ((n, Some err), w2) \<Rightarrow> (Returned False (Some NotRegistered), t\<lparr>number := n\<rparr>, w2)
           | ((n, None), w2) \<Rightarrow>
               (let t1 = t\<lparr>number := n, client := True\<rparr>;
                    w3 = called TextsecureSetup (w2\<lparr>fs := snd (textsecureSetup env (fs w2))\<rparr>)
                in case fst (textsecureSetup env (fs w2)) of
                     Some err \<Rightarrow> (Returned False (Some (EnableFailed err)), t1, w3)
                   | None \<Rightarrow>
                       (if \<not> postAuth \<and> registerFlag env then (Exit0, t1, lock env w3)
                        else
                          (let w4 = statusLog (''enabling TextSecure message listener for '' @ n) w3;
                               w5 = called TextsecureListenForMessages w4
                           in (Returned True None, t1, w5))))))"

text \<open>
  \<^verbatim>\<open>Activate\<close> (lines 77-178). The answers of the operator to \<^verbatim>\<open>readLine\<close> and
  \<^verbatim>\<open>readPasswd\<close> are \<open>volumeLine\<close>, \<open>disposeLine\<close>, \<open>passwordLine\<close> and \<open>numberLine\<close>.
\<close>

definition Activate :: "env \<Rightarrow> world \<Rightarrow> textSecure \<Rightarrow> bool \<Rightarrow> activation \<times> textSecure \<times> world" where
  "Activate env w t postAuth =
     (if \<not> postAuth then
        (if \<not> registerFlag env then (Returned True None, t, w)
         else
           (let dispose = (disposeLine env = ''YES'');
                auth = (if testMode env then (None, w)
                        else (fst (authenticate env (volumeLine env) (passwordLine env) dispose (fs w)),
                              called (AuthenticateVolume (volumeLine env))
                                (w\<lparr>fs := snd (authenticate env (volumeLine env) (passwordLine env)
                                               dispose (fs w))\<rparr>)))
            in case auth of
                 (Some err, w1) \<Rightarrow>
                   (Fatal (FatalError err), t,
                    called LuksClose
                      ((called LuksUnmount (w1\<lparr>fs := luksUnmount env (fs w1)\<rparr>))
                         \<lparr>fs := luksClose env (luksUnmount env (fs w1))\<rparr>))
               | (None, w1) \<Rightarrow>
                   (case needsRegistration env w1 of
                      (True, w2) \<Rightarrow>
                        (case osOpenFile w2 (numberPath env) True of
                           (Some err, w3) \<Rightarrow> (Fatal (FailedToSaveNumber err), t, w3)
                         | (None, w3) \<Rightarrow>
                             enable env (snd (fileWrite env w3 (numberPath env) (numberLine env)))
                               t postAuth)
                    | (False, w2) \<Rightarrow>
                        (case registeredNumber env w2 of
                           ((n, err), w3) \<Rightarrow>
                             (Fatal (AlreadyRegistered n (storagePath env)), t, lock env w3)))))
      else enable env w t postAuth)"

subsection \<open>An installation, for the concrete instances\<close>

text \<open>
  The volume is mounted at \<^verbatim>\<open>/mnt\<close> with the keys under \<^verbatim>\<open>keys\<close>. \<^verbatim>\<open>absolutePath\<close> joins the
  mount point and the path and \<^verbatim>\<open>detectKeyPath\<close> compares prefixes. The transport fails
  on the message \<^verbatim>\<open>fail\<close>, and the device refuses writes to the history file of Bob.
\<close>

definition exampleEnv :: env where
  "exampleEnv =
     \<lparr>mountPoint = ''/mnt'', keyPath = ''keys'', testMode = True, registerFlag = True,
      absolutePath = (\<lambda>p. Inr (joinPath [''/mnt'', p])),
      relativePath = (\<lambda>p. (drop 4 p, None)),
      detectKeyPath = (\<lambda>p. (stripPrefix ''/mnt/keys'' p \<noteq> None,
                               stripPrefix ''/mnt/keys/textsecure/private'' p \<noteq> None)),
      validateRequest = (\<lambda>r ks. None),
      regexpOther = (\<lambda>p. None),
      globOther = (\<lambda>d p. Inr []),
      textsecureSendMessage = (\<lambda>n m. if m = ''fail'' then Some (External ''transport'') else None),
      textsecureSendAttachment =
        (\<lambda>n m a. if m = ''fail'' then Some (External ''transport'') else None),
      textsecureSetup = (\<lambda>d. (None, d)),
      authenticate = (\<lambda>v p b d. (None, d)),
      luksUnmount = (\<lambda>d. d),
      luksClose = (\<lambda>d. d),
      writeError = (\<lambda>p. if p = ''/mnt/textsecure/contacts/Bob +15550002.textsecure''
                          then Some (OsError ''write'' p) else None),
      tempSuffix = (\<lambda>n. if n = 0 then ''7'' else ''8''),
      formatTime = (\<lambda>t. ''Jan 02 15:04''),
      timeNow = 0,
      volumeLine = ''volume'', disposeLine = ''NO'', passwordLine = ''password'',
      numberLine = ''+15551234''\<rparr>"

definition exampleDisk :: filesys where
  "exampleDisk =
     [(''/mnt'', Dir), (''/mnt/textsecure'', Dir), (''/mnt/textsecure/contacts'', Dir),
      (''/mnt/textsecure/contacts/Alice +15550001.textsecure'', File ''Jan 01 10:00 < hi''),
      (''/mnt/textsecure/contacts/Bob +15550002.textsecure'', File []),
      (''/mnt/textsecure/contacts/Al +15550001.textsecure'', File []),
      (''/mnt/keys'', Dir), (''/mnt/keys/textsecure'', Dir),
      (''/mnt/keys/textsecure/private'', Dir),
      (''/mnt/keys/textsecure/private/number'', File ''+15551234''),
      (''/mnt/keys/textsecure/private/prekeys'', Dir),
      (''/mnt/keys/textsecure/private/prekeys/016777215'', File ''k'')]"

definition exampleWorld :: world where
  "exampleWorld = \<lparr>fs = exampleDisk, calls = [], entropy = 0\<rparr>"

definition alice :: string where
  "alice = ''/mnt/textsecure/contacts/Alice +15550001.textsecure''"

text \<open>A history of 10241 bytes: one byte, a line feed, and 10239 bytes without one.\<close>

definition longHistory :: string where
  "longHistory = CHR ''x'' # lineFeed # replicate 10239 CHR ''a''"

definition longWorld :: world where
  "longWorld = \<lparr>fs = [(alice, File longHistory)], calls = [], entropy = 0\<rparr>"

definition aliceRequest :: request where
  "aliceRequest = [''contact'' \<mapsto> JString ''textsecure/contacts/Alice +15550001.textsecure'']"


definition failRequest :: request where
  "failRequest =
     [''contact'' \<mapsto> JString ''textsecure/contacts/Alice +15550001.textsecure'',
      ''msg'' \<mapsto> JString ''fail'']"

definition bob :: contactInfo where
  "bob = \<lparr>Name = ''Bob'', Number = ''+15550002'',
           HistoryPath = ''/mnt/textsecure/contacts/Bob +15550002.textsecure'',
           AttachmentDir = ''/mnt/textsecure/attachments/Bob +15550002''\<rparr>"

text \<open>An attachment whose reader delivers three bytes and then fails.\<close>

definition brokenReader :: reader where
  "brokenReader = \<lparr>delivered = ''abc'', failure = Some (External ''connection reset'')\<rparr>"






text \<open>
  An installation with the volume mounted at \<^verbatim>\<open>/mnt/disk+1\<close>, and a disk that holds one
  contact there.
\<close>

definition plusEnv :: env where
  "plusEnv = exampleEnv\<lparr>mountPoint := ''/mnt/disk+1'',
                          absolutePath := (\<lambda>p. Inr (joinPath [''/mnt/disk+1'', p]))\<rparr>"

definition plusWorld :: world where
  "plusWorld =
     \<lparr>fs = [(''/mnt/disk+1'', Dir), (''/mnt/disk+1/textsecure'', Dir),
            (''/mnt/disk+1/textsecure/contacts'', Dir),
            (''/mnt/disk+1/textsecure/contacts/Alice +15550001.textsecure'', File [])],
      calls = [], entropy = 0\<rparr>"

section \<open>Theorems\<close>

lemma stripPrefix_append: "stripPrefix p (p @ s) = Some s"
  by (induction p) auto

lemma stripSuffix_append: "stripSuffix p (s @ p) = Some s"
  by (simp add: stripSuffix_def stripPrefix_append)

lemma spaceSplits_no_space: "CHR '' '' \<notin> set s \<Longrightarrow> spaceSplits s = []"
  by (induction s) auto

lemma spaceSplits_last_space:
  "CHR '' '' \<notin> set num \<Longrightarrow>
   \<exists>rest. spaceSplits (name @ CHR '' '' # num) = (name, num) # rest"
  by (induction name) (auto simp: spaceSplits_no_space)

lemma digits_no_space: "list_all isDigit ds \<Longrightarrow> CHR '' '' \<notin> set ds"
  by (induction ds) (auto simp: isDigit_def)

lemma stripPrefix_Some: "stripPrefix p s = Some r \<Longrightarrow> s = p @ r"
  by (induction p s rule: stripPrefix.induct) (auto split: if_splits)

lemma numberPattern_no_space: "numberPattern n \<Longrightarrow> CHR '' '' \<notin> set n"
  by (auto simp: numberPattern_def digits1_def split: option.splits
      dest!: stripPrefix_Some digits_no_space)

lemma digits_no_slash: "list_all isDigit ds \<Longrightarrow> CHR ''/'' \<notin> set ds"
  by (induction ds) (auto simp: isDigit_def)

lemma numberPattern_no_slash: "numberPattern n \<Longrightarrow> CHR ''/'' \<notin> set n"
  by (auto simp: numberPattern_def digits1_def split: option.splits
      dest!: stripPrefix_Some digits_no_slash)

lemma pathBase_file:
  assumes "CHR ''/'' \<notin> set f" and "f \<noteq> []"
  shows "pathBase (r @ ''/'' @ f) = f"
proof -
  have l: "last f \<noteq> CHR ''/''" using assms by (metis last_in_set)
  have "dropWhile (\<lambda>c. c = CHR ''/'') (rev f @ CHR ''/'' # rev r) = rev f @ CHR ''/'' # rev r"
    using assms l by (cases f rule: rev_cases) auto
  moreover have "takeWhile (\<lambda>c. c \<noteq> CHR ''/'') (rev f @ CHR ''/'' # rev r) = rev f"
    using assms by (simp add: takeWhile_append)
  ultimately show ?thesis using assms by (simp add: pathBase_def Let_def takeWhile_append)
qed

lemma example_contactsPath: "contactsPath exampleEnv = ''/mnt/textsecure/contacts''"
  by (simp add: contactsPath_def exampleEnv_def joinPath_def cleanPath_def)

lemma example_attachmentsPath: "attachmentsPath exampleEnv = ''/mnt/textsecure/attachments''"
  by (simp add: attachmentsPath_def exampleEnv_def joinPath_def cleanPath_def)

lemma example_storagePath: "storagePath exampleEnv = ''/mnt/keys/textsecure/private''"
  by (simp add: storagePath_def exampleEnv_def joinPath_def cleanPath_def)

subsection \<open>Contact paths\<close>

lemma dirPart_file: "CHR ''/'' \<notin> set f \<Longrightarrow> dirPart (r @ ''/'' @ f) = r"
  by (simp add: dirPart_def dropWhileEnd_def dropWhile_append)

lemma filePart_file: "CHR ''/'' \<notin> set f \<Longrightarrow> filePart (r @ ''/'' @ f) = f"
  by (simp add: filePart_def takeWhile_append)

lemma dirPart_extends: "\<exists>x. dirPart (r @ ''/'' @ s) = r @ x"
proof (cases "CHR ''/'' \<in> set s")
  case False
  then show ?thesis using dirPart_file [of s r] by simp
next
  case True
  then have "dropWhile (\<lambda>c. c \<noteq> CHR ''/'') (rev s) \<noteq> []"
    by simp
  then have "butlast (r @ CHR ''/'' # rev (dropWhile (\<lambda>c. c \<noteq> CHR ''/'') (rev s)))
             = r @ butlast (CHR ''/'' # rev (dropWhile (\<lambda>c. c \<noteq> CHR ''/'') (rev s)))"
    by (simp add: butlast_append)
  with True show ?thesis
    by (auto simp: dirPart_def dropWhileEnd_def dropWhile_append)
qed

lemma parseRoot_atoms:
  "list_all isAtom root \<Longrightarrow> parseRoot root = Some (map (\<lambda>c. (c, Once)) root)"
proof (induction root rule: parseRoot.induct)
  case 1
  then show ?case by simp
next
  case (2 c)
  then show ?case by simp
next
  case (3 c q cs)
  then have "\<not> isRepeat q" by (auto simp: isAtom_def isRepeat_def)
  with 3 show ?case by simp
qed

lemma matchRoot_atoms:
  "list_all isAtom root \<Longrightarrow> matchRoot (map (\<lambda>c. (c, Once)) root) root"
  by (induction root) (auto simp: lineFeed_def)

lemma matchRoot_literal:
  "CHR ''.'' \<notin> set root \<Longrightarrow> matchRoot (map (\<lambda>c. (c, Once)) root) s = (s = root)"
proof (induction root arbitrary: s)
  case Nil
  then show ?case by simp
next
  case (Cons a root)
  then show ?case by (cases s) auto
qed

lemma contactSubmatch_convention:
  assumes "matchRoot items root" and "CHR ''/'' \<notin> set name" and "numberPattern num"
  shows "contactSubmatch items (root @ ''/'' @ name @ '' '' @ num @ ''.'' @ contactExt)
         = Some (name @ '' '' @ num, name, num)"
proof -
  have s: "CHR ''/'' \<notin> set (name @ '' '' @ num @ ''.'' @ contactExt)"
    using assms(2) numberPattern_no_slash [OF assms(3)] by (simp add: contactExt_def)
  have d: "dirPart (root @ ''/'' @ name @ '' '' @ num @ ''.'' @ contactExt) = root"
    using dirPart_file [OF s] by simp
  have f: "filePart (root @ ''/'' @ name @ '' '' @ num @ ''.'' @ contactExt)
           = name @ '' '' @ num @ ''.'' @ contactExt"
    using filePart_file [OF s] by simp
  have "stripSuffix (''.'' @ contactExt) (name @ '' '' @ num @ ''.'' @ contactExt)
        = Some (name @ '' '' @ num)"
    using stripSuffix_append [of "''.'' @ contactExt" "name @ '' '' @ num"] by simp
  moreover obtain rest where "spaceSplits (name @ '' '' @ num) = (name, num) # rest"
    using spaceSplits_last_space [OF numberPattern_no_space [OF assms(3)], of name] by auto
  ultimately show ?thesis
    using assms d f by (simp add: contactSubmatch_def)
qed

lemma isAtom_ascii: "list_all isAtom s \<Longrightarrow> list_all (\<lambda>c. of_char c < (128 :: nat)) s"
  by (induction s) (auto simp: isAtom_def)

text \<open>
  Where the contacts root holds atoms only (ASCII bytes, none of them an operator other
  than \<^verbatim>\<open>.\<close>), the root matches itself: a path \<^verbatim>\<open><root>/<name> <number>.textsecure\<close> with a
  name without a slash and a number of the canonical pattern, which \<^verbatim>\<open>absolutePath\<close>
  accepts, is resolved by \<^verbatim>\<open>parseContact\<close>, and the record gives the path back.
\<close>

lemma parseContact_convention:
  assumes "list_all isAtom (contactsPath env)"
    and "CHR ''/'' \<notin> set name"
    and "numberPattern num"
    and "p = contactsPath env @ ''/'' @ name @ '' '' @ num @ ''.'' @ contactExt"
    and "absolutePath env p = Inr q"
  shows "\<exists>c. parseContact env p = Inr c
           \<and> Name c = name \<and> Number c = num \<and> HistoryPath c = p
           \<and> Name c @ '' '' @ Number c @ ''.'' @ contactExt = pathBase p"
proof -
  have s: "CHR ''/'' \<notin> set (name @ '' '' @ num @ ''.'' @ contactExt)"
    using assms(2) numberPattern_no_slash [OF assms(3)] by (simp add: contactExt_def)
  have d: "dirPart p = contactsPath env"
    unfolding assms(4) using dirPart_file [OF s] by simp
  have m: "findContact env p = Some (name @ '' '' @ num, name, num)"
    using parseRoot_atoms [OF assms(1)] isAtom_ascii [OF assms(1)] d
      contactSubmatch_convention [OF matchRoot_atoms [OF assms(1)] assms(2,3)] assms(4)
    by (simp add: findContact_def)
  have b: "pathBase p = name @ '' '' @ num @ ''.'' @ contactExt"
    unfolding assms(4) using pathBase_file [OF s] by simp
  show ?thesis
    using m b assms(4,5) by (simp add: parseContact_def)
qed

lemma parseContact_alice:
  "list_all isAtom (contactsPath exampleEnv) \<and> numberPattern ''+15550001''
   \<and> (\<exists>c. parseContact exampleEnv alice = Inr c
          \<and> Name c = ''Alice'' \<and> Number c = ''+15550001'' \<and> HistoryPath c = alice
          \<and> Name c @ '' '' @ Number c @ ''.'' @ contactExt = pathBase alice)"
proof -
  have 1: "list_all isAtom (contactsPath exampleEnv)"
    by (simp add: example_contactsPath isAtom_def)
  have 2: "CHR ''/'' \<notin> set ''Alice''" by simp
  have 3: "numberPattern ''+15550001''"
    by (simp add: numberPattern_def digits1_def isDigit_def)
  have 4: "alice = contactsPath exampleEnv @ ''/'' @ ''Alice'' @ '' '' @ ''+15550001'' @ ''.'' @ contactExt"
    by (simp add: example_contactsPath alice_def contactExt_def)
  have 5: "absolutePath exampleEnv alice = Inr (joinPath [''/mnt'', alice])"
    by (simp add: exampleEnv_def)
  show ?thesis
    using 1 3 parseContact_convention [OF 1 2 3 4 5] by simp
qed

lemma plus_contactsPath:
  "contactsPath (env\<lparr>mountPoint := ''/mnt/disk+1''\<rparr>) = ''/mnt/disk+1/textsecure/contacts''"
  by (simp add: contactsPath_def joinPath_def cleanPath_def)

lemma plus_parseRoot:
  "\<exists>is. parseRoot ''/mnt/disk+1/textsecure/contacts''
         = Some ((CHR ''/'', Once) # (CHR ''m'', Once) # (CHR ''n'', Once) # (CHR ''t'', Once)
                 # (CHR ''/'', Once) # (CHR ''d'', Once) # (CHR ''i'', Once) # (CHR ''s'', Once)
                 # (CHR ''k'', Plus) # (CHR ''1'', Once) # is)"
  by (simp add: isAtom_def isRepeat_def quantifierOf_def)

text \<open>
  C4, where the code departs from the claim. \<^verbatim>\<open>parseContact\<close> splices the contacts root
  into its pattern unescaped, so a root that holds an operator of the regular expression
  syntax is not matched as it is written. With the mount point \<^verbatim>\<open>/mnt/disk+1\<close> the
  contacts root is \<^verbatim>\<open>/mnt/disk+1/textsecure/contacts\<close>, and \<^verbatim>\<open>parseContact\<close> answers "invalid
  contact" on every path \<^verbatim>\<open><root>/<name> <number>.textsecure\<close> under that root, whatever
  the name and the number are: nothing is resolved and nothing round-trips. The pattern
  reads \<^verbatim>\<open>k+\<close> as a repetition, so what it matches instead is a path under \<^verbatim>\<open>/mnt/diskk1\<close>.
  In the same installation \<^verbatim>\<open>getContact\<close>, which finds the history file of a number with
  a glob under the root as it is written and hands it to \<^verbatim>\<open>parseContact\<close>, fails for a
  number whose contact file is on the disk.
\<close>

theorem parseContact_unescaped_root:
  "contactsPath (env\<lparr>mountPoint := ''/mnt/disk+1''\<rparr>) = ''/mnt/disk+1/textsecure/contacts''
   \<and> parseContact (env\<lparr>mountPoint := ''/mnt/disk+1''\<rparr>)
        (''/mnt/disk+1/textsecure/contacts'' @ ''/'' @ name @ '' '' @ num @ ''.'' @ contactExt)
      = Inl InvalidContact
   \<and> findContact (env\<lparr>mountPoint := ''/mnt/disk+1''\<rparr>)
        ''/mnt/diskk1/textsecure/contacts/Alice +15550001.textsecure''
      = Some (''Alice +15550001'', ''Alice'', ''+15550001'')
   \<and> nodeAt (fs plusWorld) ''/mnt/disk+1/textsecure/contacts/Alice +15550001.textsecure''
      = Some (File [])
   \<and> fst (getContact plusEnv plusWorld ''+15550001'') = Inl InvalidContact"
proof -
  let ?p = "''/mnt/disk+1/textsecure/contacts'' @ ''/'' @ name @ '' '' @ num @ ''.'' @ contactExt"
  obtain x where d: "dirPart ?p = ''/mnt/disk+1/textsecure/contacts'' @ x"
    using dirPart_extends [of "''/mnt/disk+1/textsecure/contacts''"] by blast
  obtain "is" where i: "parseRoot ''/mnt/disk+1/textsecure/contacts''
         = Some ((CHR ''/'', Once) # (CHR ''m'', Once) # (CHR ''n'', Once) # (CHR ''t'', Once)
                 # (CHR ''/'', Once) # (CHR ''d'', Once) # (CHR ''i'', Once) # (CHR ''s'', Once)
                 # (CHR ''k'', Plus) # (CHR ''1'', Once) # is)"
    using plus_parseRoot by blast
  have "findContact (env\<lparr>mountPoint := ''/mnt/disk+1''\<rparr>) ?p = None"
    unfolding findContact_def plus_contactsPath i contactSubmatch_def d by simp
  then have 1: "parseContact (env\<lparr>mountPoint := ''/mnt/disk+1''\<rparr>) ?p = Inl InvalidContact"
    by (simp add: parseContact_def)
  have 2: "findContact (env\<lparr>mountPoint := ''/mnt/disk+1''\<rparr>)
             ''/mnt/diskk1/textsecure/contacts/Alice +15550001.textsecure''
           = Some (''Alice +15550001'', ''Alice'', ''+15550001'')"
    unfolding findContact_def plus_contactsPath by code_simp
  have 3: "nodeAt (fs plusWorld) ''/mnt/disk+1/textsecure/contacts/Alice +15550001.textsecure''
           = Some (File [])"
    by code_simp
  have 4: "fst (getContact plusEnv plusWorld ''+15550001'') = Inl InvalidContact"
    by code_simp
  from plus_contactsPath [of env] 1 2 3 4 show ?thesis by blast
qed


subsection \<open>The tail of a history\<close>

lemma indexByte_absent: "c \<notin> set bs \<Longrightarrow> indexByte bs c = - 1"
  by (induction bs) (auto simp: Let_def)

lemma indexByte_present:
  "c \<in> set bs \<Longrightarrow>
   0 \<le> indexByte bs c \<and> drop (nat (indexByte bs c)) bs = dropWhile (\<lambda>b. b \<noteq> c) bs"
proof (induction bs)
  case Nil
  then show ?case by simp
next
  case (Cons b bs)
  show ?case
  proof (cases "b = c")
    case True
    then show ?thesis by simp
  next
    case False
    with Cons have "0 \<le> indexByte bs c"
      and "drop (nat (indexByte bs c)) bs = dropWhile (\<lambda>b. b \<noteq> c) bs"
      by auto
    with False show ?thesis by (simp add: Let_def nat_add_distrib)
  qed
qed

lemma historyTail_short: "length content \<le> historySize \<Longrightarrow> historyTail content = content"
  by (simp add: historyTail_def seekOffset_def trimOffset_def)

lemma historyTail_line_feed:
  assumes "historySize < length content"
    and "lineFeed \<in> set (drop (length content - historySize) content)"
  shows "historyTail content
         = dropWhile (\<lambda>b. b \<noteq> lineFeed) (drop (length content - historySize) content)"
  using assms indexByte_present [OF assms(2)]
  by (simp add: historyTail_def seekOffset_def trimOffset_def Let_def)

lemma historyTail_no_line_feed:
  assumes "historySize < length content"
    and "lineFeed \<notin> set (drop (length content - historySize) content)"
  shows "historyTail content = drop (length content - historySize) content"
  using assms indexByte_absent [OF assms(2)]
  by (simp add: historyTail_def seekOffset_def trimOffset_def Let_def)

lemma downloadHistory_file:
  assumes "req ''contact'' = Some (JString c)"
    and "validateRequest env req [''contact:s''] = None"
    and "absolutePath env c = Inr contactPath"
    and "parseContact env contactPath = Inr contact"
    and "nodeAt (fs w) contactPath = Some (File content)"
  shows "downloadHistory env w (Inr req)
         = (Response (StatusOK (Some (historyTail content))),
            called (IoutilReadAll contactPath)
              (called (OsStat contactPath) (called (OsOpen contactPath) w)))"
  using assms
  by (simp add: downloadHistory_def osOpen_def ioutilReadAll_def historyTail_def Let_def)

lemma example_absolute_alice:
  "absolutePath exampleEnv ''textsecure/contacts/Alice +15550001.textsecure'' = Inr alice"
  by (simp add: exampleEnv_def alice_def joinPath_def cleanPath_def)

lemma example_parse_alice:
  "parseContact exampleEnv alice =
     Inr \<lparr>Name = ''Alice'', Number = ''+15550001'', HistoryPath = alice,
          AttachmentDir = ''/mnt/textsecure/attachments/Alice +15550001''\<rparr>"
  by code_simp

lemma longHistory_tail:
  "historySize < length longHistory
   \<and> drop (length longHistory - historySize) longHistory = lineFeed # replicate 10239 CHR ''a''"
  by (simp add: longHistory_def historySize_def)

lemma downloadHistory_long:
  "downloadHistory exampleEnv longWorld (Inr aliceRequest)
   = (Response (StatusOK (Some (historyTail longHistory))),
      called (IoutilReadAll alice) (called (OsStat alice) (called (OsOpen alice) longWorld)))"
proof (rule downloadHistory_file)
  show "aliceRequest ''contact'' = Some (JString ''textsecure/contacts/Alice +15550001.textsecure'')"
    by (simp add: aliceRequest_def)
  show "validateRequest exampleEnv aliceRequest [''contact:s''] = None"
    by (simp add: exampleEnv_def)
  show "absolutePath exampleEnv ''textsecure/contacts/Alice +15550001.textsecure'' = Inr alice"
    by (rule example_absolute_alice)
  show "parseContact exampleEnv alice = Inr \<lparr>Name = ''Alice'', Number = ''+15550001'',
          HistoryPath = alice, AttachmentDir = ''/mnt/textsecure/attachments/Alice +15550001''\<rparr>"
    by (rule example_parse_alice)
  show "nodeAt (fs longWorld) alice = Some (File longHistory)"
    by (simp add: longWorld_def nodeAt_def alice_def)
qed

text \<open>
  C2, as the code has it. For a contact path that resolves to a file, \<^verbatim>\<open>downloadHistory\<close>
  answers with a text and leaves the disk as it was. A file of at most \<^verbatim>\<open>historySize\<close>
  bytes (10 KiB) is returned whole. Of a longer file the last \<^verbatim>\<open>historySize\<close> bytes are
  read; where they hold a line feed the text is what they hold from the first line feed
  on, that line feed included, and where they hold none the text is all of them.
\<close>

theorem downloadHistory_tail:
  assumes "req ''contact'' = Some (JString c)"
    and "validateRequest env req [''contact:s''] = None"
    and "absolutePath env c = Inr contactPath"
    and "parseContact env contactPath = Inr contact"
    and "nodeAt (fs w) contactPath = Some (File content)"
  shows "\<exists>text w'. downloadHistory env w (Inr req) = (Response (StatusOK (Some text)), w')
           \<and> fs w' = fs w
           \<and> (length content \<le> historySize \<longrightarrow> text = content)
           \<and> (historySize < length content
                \<and> lineFeed \<in> set (drop (length content - historySize) content)
                \<longrightarrow> text = dropWhile (\<lambda>b. b \<noteq> lineFeed)
                              (drop (length content - historySize) content)
                    \<and> hd text = lineFeed)
           \<and> (historySize < length content
                \<and> lineFeed \<notin> set (drop (length content - historySize) content)
                \<longrightarrow> text = drop (length content - historySize) content)"
proof -
  have "lineFeed \<in> set xs \<Longrightarrow> hd (dropWhile (\<lambda>b. b \<noteq> lineFeed) xs) = lineFeed" for xs
    using hd_dropWhile [of "\<lambda>b. b \<noteq> lineFeed" xs] by (auto simp: dropWhile_eq_Nil_conv)
  then show ?thesis
    using downloadHistory_file [OF assms]
      historyTail_short [of content] historyTail_line_feed [of content]
      historyTail_no_line_feed [of content]
    by (simp add: called_def)
qed

theorem downloadHistory_tail_witness:
  "historySize < length longHistory
   \<and> lineFeed \<in> set (drop (length longHistory - historySize) longHistory)
   \<and> (\<exists>w'. downloadHistory exampleEnv longWorld (Inr aliceRequest)
             = (Response (StatusOK (Some (lineFeed # replicate 10239 CHR ''a''))), w'))"
proof -
  have 1: "aliceRequest ''contact'' = Some (JString ''textsecure/contacts/Alice +15550001.textsecure'')"
    by (simp add: aliceRequest_def)
  have 2: "validateRequest exampleEnv aliceRequest [''contact:s''] = None"
    by (simp add: exampleEnv_def)
  have 5: "nodeAt (fs longWorld) alice = Some (File longHistory)"
    by (simp add: longWorld_def nodeAt_def alice_def)
  show ?thesis
    using downloadHistory_tail [OF 1 2 example_absolute_alice example_parse_alice 5]
      longHistory_tail
    by auto
qed

text \<open>
  The claim C2 has the text start after the nearest line feed at or after the offset
  \<^verbatim>\<open>size - historySize\<close>. The history of 10241 bytes is read from offset 1, where its
  only line feed stands: the text after that line feed is the 10239 bytes that follow,
  and the text returned is the line feed and those bytes.
\<close>

theorem downloadHistory_tail_counterexample:
  "length longHistory - historySize = 1
   \<and> longHistory = CHR ''x'' # lineFeed # replicate 10239 CHR ''a''
   \<and> fst (downloadHistory exampleEnv longWorld (Inr aliceRequest))
       = Response (StatusOK (Some (lineFeed # replicate 10239 CHR ''a'')))
   \<and> fst (downloadHistory exampleEnv longWorld (Inr aliceRequest))
       \<noteq> Response (StatusOK (Some (replicate 10239 CHR ''a'')))"
proof -
  have "historyTail longHistory = lineFeed # replicate 10239 CHR ''a''"
    using longHistory_tail historyTail_line_feed [of longHistory] by simp
  moreover have "length longHistory - historySize = 1"
    by (simp add: longHistory_def historySize_def)
  moreover have "lineFeed # replicate 10239 CHR ''a'' \<noteq> replicate 10239 CHR ''a''"
    by (metis length_Cons length_replicate n_not_Suc_n)
  ultimately show ?thesis
    by (simp add: downloadHistory_long longHistory_def)
qed

subsection \<open>Sending\<close>

lemma calls_called [simp]: "calls (called c w) = calls w @ [c]"
  by (simp add: called_def)

lemma fs_called [simp]: "fs (called c w) = fs w"
  by (simp add: called_def)

lemma entropy_called [simp]: "entropy (called c w) = entropy w"
  by (simp add: called_def)

lemma newCalls_same [simp]: "newCalls w w = []"
  by (simp add: newCalls_def)

lemma newCalls_append: "calls w' = calls w @ cs \<Longrightarrow> newCalls w w' = cs"
  by (simp add: newCalls_def)

lemma updateHistory_calls:
  "\<exists>cs. calls (snd (updateHistory env w contact msg prefix t)) = calls w @ cs
        \<and> \<not> list_ex transportFailure cs"
  by (auto simp: updateHistory_def osOpenFile_def fileWrite_def statusError_def Let_def
      split: option.splits node.splits)



text \<open>
  C5. Whenever a run of \<^verbatim>\<open>sendMessage\<close> has called the transport (to send a message or
  an attachment) and the transport has returned an error, the answer is an error
  response, the disk is as it was before the request, and the run has made no call
  that opens or writes the history file.
\<close>

theorem sendMessage_transport_failure:
  assumes "sendMessage env w parsed = (out, w')"
    and "list_ex transportFailure (newCalls w w')"
  shows "(\<exists>e. out = Response (ErrorResponse e)) \<and> fs w' = fs w
         \<and> \<not> list_ex writesDisk (newCalls w w')"
proof -
  have u: "\<not> list_ex transportFailure (newCalls w v')"
    if "updateHistory env v contact m p t = (r, v')"
      and "calls v = calls w @ cs" and "\<not> list_ex transportFailure cs"
    for v v' contact m p t r cs
  proof -
    obtain ds where "calls (snd (updateHistory env v contact m p t)) = calls v @ ds"
      and "\<not> list_ex transportFailure ds"
      using updateHistory_calls by blast
    with that show ?thesis by (simp add: newCalls_def)
  qed
  have u1: "\<not> list_ex transportFailure (newCalls w v')"
    if "updateHistory env (called (TextsecureSendMessage n m None) w) contact m' p t = (r, v')"
    for n m contact m' p t r v'
    using u [OF that, of "[TextsecureSendMessage n m None]"] by simp
  have u2: "\<not> list_ex transportFailure (newCalls w v')"
    if "updateHistory env (called (TextsecureSendAttachment n m q None) (called (OsOpen q) w))
          contact m' p t = (r, v')"
    for n m q contact m' p t r v'
    using u [OF that, of "[OsOpen q, TextsecureSendAttachment n m q None]"] by simp
  show ?thesis
    using assms
    by (auto simp: sendMessage_def osOpen_def Let_def newCalls_def
        split: option.splits sum.splits jsonValue.splits prod.splits if_splits
        dest: u1 u2)
qed

lemma example_send_fail:
  "sendMessage exampleEnv exampleWorld (Inr failRequest)
   = (Response (ErrorResponse (External ''transport'')),
      called (TextsecureSendMessage ''+15550001'' ''fail'' (Some (External ''transport'')))
        exampleWorld)"
proof -
  have "failRequest ''msg'' = Some (JString ''fail'')"
    and "failRequest ''contact'' = Some (JString ''textsecure/contacts/Alice +15550001.textsecure'')"
    and "failRequest ''attachment'' = None"
    by (simp_all add: failRequest_def)
  moreover have "validateRequest exampleEnv failRequest [''contact:s'', ''msg:s''] = None"
    and "textsecureSendMessage exampleEnv ''+15550001'' ''fail'' = Some (External ''transport'')"
    by (simp_all add: exampleEnv_def)
  ultimately show ?thesis
    by (simp add: sendMessage_def example_absolute_alice example_parse_alice)
qed

theorem sendMessage_transport_failure_witness:
  "list_ex transportFailure
     (newCalls exampleWorld (snd (sendMessage exampleEnv exampleWorld (Inr failRequest))))
   \<and> (\<exists>e. fst (sendMessage exampleEnv exampleWorld (Inr failRequest)) = Response (ErrorResponse e))
   \<and> fs (snd (sendMessage exampleEnv exampleWorld (Inr failRequest))) = fs exampleWorld"
proof -
  have 2: "list_ex transportFailure
             (newCalls exampleWorld
                (called (TextsecureSendMessage ''+15550001'' ''fail'' (Some (External ''transport'')))
                   exampleWorld))"
    by (simp add: newCalls_def)
  show ?thesis
    using 2 sendMessage_transport_failure [OF example_send_fail 2]
    by (simp add: example_send_fail)
qed

subsection \<open>Errors of writing\<close>

text \<open>
  C6, where the code departs from the claim. The device refuses writes to the history
  file of Bob: the file is opened, \<^verbatim>\<open>Write\<close> returns an error, and \<^verbatim>\<open>updateHistory\<close>
  returns no error and leaves the file as it was. In general the error that
  \<^verbatim>\<open>updateHistory\<close> returns is the error of \<^verbatim>\<open>os.OpenFile\<close> and nothing else.
\<close>

theorem updateHistory_write_error_discarded:
  "fst (osOpenFile exampleWorld (HistoryPath bob) False) = None
   \<and> fst (fileWrite exampleEnv (snd (osOpenFile exampleWorld (HistoryPath bob) False))
            (HistoryPath bob) (''Jan 02 15:04 > hello'' @ [lineFeed]))
       = Some (OsError ''write'' (HistoryPath bob))
   \<and> fst (updateHistory exampleEnv exampleWorld bob ''hello'' ''>'' 0) = None
   \<and> fs (snd (updateHistory exampleEnv exampleWorld bob ''hello'' ''>'' 0)) = fs exampleWorld
   \<and> (\<forall>env w contact msg prefix t.
         fst (updateHistory env w contact msg prefix t)
         = fst (osOpenFile w (HistoryPath contact) False))"
proof -
  have g: "fst (updateHistory env w contact msg prefix t) = fst (osOpenFile w (HistoryPath contact) False)"
    for env w contact msg prefix t
    by (simp add: updateHistory_def Let_def split: prod.splits option.splits)
  have "nodeAt exampleDisk (HistoryPath bob) = Some (File [])"
    by (simp add: bob_def exampleDisk_def nodeAt_def)
  moreover have "writeError exampleEnv (HistoryPath bob) = Some (OsError ''write'' (HistoryPath bob))"
    by (simp add: bob_def exampleEnv_def)
  ultimately have
    "fst (osOpenFile exampleWorld (HistoryPath bob) False) = None"
    "fst (fileWrite exampleEnv (snd (osOpenFile exampleWorld (HistoryPath bob) False))
            (HistoryPath bob) (''Jan 02 15:04 > hello'' @ [lineFeed]))
       = Some (OsError ''write'' (HistoryPath bob))"
    "fs (snd (updateHistory exampleEnv exampleWorld bob ''hello'' ''>'' 0)) = fs exampleWorld"
    by (simp_all add: osOpenFile_def fileWrite_def updateHistory_def exampleWorld_def Let_def)
  with g show ?thesis by simp
qed

lemma saveAttachment_example:
  "fst (saveAttachment exampleEnv exampleWorld bob brokenReader)
     = Inr ''/textsecure/attachments/Bob +15550002/attachment_7''
   \<and> nodeAt (fs (snd (saveAttachment exampleEnv exampleWorld bob brokenReader)))
         ''/mnt/textsecure/attachments/Bob +15550002/attachment_7''
       = Some (File ''abc'')"
  by code_simp

text \<open>
  C8, where the code departs from the claim. The reader of the attachment delivers
  three bytes and then fails. \<^verbatim>\<open>saveAttachment\<close> returns the name of the new file and no
  error; the file holds the three bytes. In general what \<^verbatim>\<open>saveAttachment\<close> returns, a
  name or an error, does not depend on the reader at all.
\<close>

theorem saveAttachment_copy_error_discarded:
  "failure brokenReader = Some (External ''connection reset'')
   \<and> fst (saveAttachment exampleEnv exampleWorld bob brokenReader)
       = Inr ''/textsecure/attachments/Bob +15550002/attachment_7''
   \<and> nodeAt (fs (snd (saveAttachment exampleEnv exampleWorld bob brokenReader)))
         ''/mnt/textsecure/attachments/Bob +15550002/attachment_7''
       = Some (File ''abc'')
   \<and> (\<forall>env w contact a b.
         fst (saveAttachment env w contact a) = fst (saveAttachment env w contact b))"
proof -
  have "fst (saveAttachment env w contact a) = fst (saveAttachment env w contact b)"
    for env w contact a b
    by (simp add: saveAttachment_def Let_def split: prod.splits option.splits sum.splits)
  then show ?thesis
    using saveAttachment_example by (simp add: brokenReader_def)
qed

subsection \<open>Joining a name to a clean path\<close>

lemma cleanPath_nonempty: "cleanPath p \<noteq> []"
  by (simp add: cleanPath_def Let_def)

lemma splitOn_no_sep: "e \<in> set (splitOn c s) \<Longrightarrow> c \<notin> set e"
  by (induction s arbitrary: e) (auto split: if_splits list.splits)

lemma splitOn_nonempty [simp]: "splitOn c s \<noteq> []"
  by (induction s) (auto split: list.splits)

lemma splitOn_append_sep: "splitOn c (a @ c # b) = splitOn c a @ splitOn c b"
  by (induction a) (auto split: list.splits)

lemma splitOn_plain: "c \<notin> set e \<Longrightarrow> splitOn c e = [e]"
  by (induction e) auto

lemma joinWith_Cons: "es \<noteq> [] \<Longrightarrow> joinWith sep (e # es) = e @ sep @ joinWith sep es"
  by (cases es) auto

lemma splitOn_joinWith:
  "es \<noteq> [] \<Longrightarrow> \<forall>e \<in> set es. c \<notin> set e \<Longrightarrow> splitOn c (joinWith [c] es) = es"
proof (induction es)
  case Nil
  then show ?case by simp
next
  case (Cons e es)
  show ?case
  proof (cases "es = []")
    case True
    with Cons.prems show ?thesis by (simp add: splitOn_plain)
  next
    case False
    with Cons show ?thesis
      by (simp add: joinWith_Cons splitOn_append_sep splitOn_plain)
  qed
qed

lemma joinWith_snoc: "es \<noteq> [] \<Longrightarrow> joinWith sep (es @ [n]) = joinWith sep es @ sep @ n"
proof (induction es)
  case Nil
  then show ?case by simp
next
  case (Cons e es)
  then show ?case by (cases "es = []") (simp_all add: joinWith_Cons)
qed

lemma cleanElems_append:
  "cleanElems rooted out (xs @ ys) = cleanElems rooted (rev (cleanElems rooted out xs)) ys"
  by (induction xs arbitrary: out) (auto split: list.splits)


lemma cleanStack_dotdots: "\<not> rooted \<Longrightarrow> list_all (\<lambda>y. y = ''..'') xs \<Longrightarrow> cleanStack rooted xs"
  by (induction xs) auto

lemma cleanStack_suffix: "cleanStack rooted (a @ b) \<Longrightarrow> cleanStack rooted b"
  by (induction a) (auto simp: cleanStack_dotdots split: if_splits)

lemma cleanElems_cleanStack:
  "cleanStack rooted out \<Longrightarrow> \<forall>e \<in> set xs. CHR ''/'' \<notin> set e \<Longrightarrow>
   \<exists>out'. cleanElems rooted out xs = rev out' \<and> cleanStack rooted out'"
proof (induction xs arbitrary: out)
  case Nil
  then show ?case by auto
next
  case (Cons e xs)
  have rest: "\<forall>e \<in> set xs. CHR ''/'' \<notin> set e" using Cons.prems(2) by simp
  consider "e = [] \<or> e = ''.''" | "e = ''..''" | "plainName e"
    using Cons.prems(2) by (auto simp: plainName_def)
  then show ?case
  proof cases
    case 1
    with Cons.IH [OF Cons.prems(1) rest] show ?thesis by auto
  next
    case 2
    show ?thesis
    proof (cases out)
      case Nil
      show ?thesis
      proof (cases rooted)
        case True
        with 2 Nil Cons.IH [OF Cons.prems(1) rest] show ?thesis by simp
      next
        case False
        then have "cleanStack rooted [''..'']" by simp
        from Cons.IH [OF this rest] 2 Nil False show ?thesis by simp
      qed
    next
      case (Cons x xs')
      show ?thesis
      proof (cases "x = ''..''")
        case True
        with Cons Cons.prems(1) have "cleanStack rooted (''..'' # out)" by simp
        from Cons.IH [OF this rest] 2 Cons True show ?thesis by simp
      next
        case False
        with Cons Cons.prems(1) have "cleanStack rooted xs'" by simp
        from Cons.IH [OF this rest] 2 Cons False show ?thesis by simp
      qed
    qed
  next
    case 3
    with Cons.prems(1) have "cleanStack rooted (e # out)" by (auto simp: plainName_def)
    from Cons.IH [OF this rest] 3 show ?thesis by (auto simp: plainName_def)
  qed
qed

lemma cleanElems_stack:
  "cleanStack rooted (ys @ out) \<Longrightarrow> cleanElems rooted out (rev ys) = rev (ys @ out)"
proof (induction ys arbitrary: out rule: rev_induct)
  case Nil
  then show ?case by simp
next
  case (snoc z zs)
  from snoc.prems have all: "cleanStack rooted (zs @ z # out)" by simp
  from cleanStack_suffix [OF all] have top: "cleanStack rooted (z # out)" .
  show ?case
  proof (cases "z = ''..''")
    case True
    with top have "cleanElems rooted out (z # rev zs) = cleanElems rooted (z # out) (rev zs)"
      by (cases out) auto
    with snoc.IH [OF all] show ?thesis by simp
  next
    case False
    with top have "plainName z" by simp
    then have "cleanElems rooted out (z # rev zs) = cleanElems rooted (z # out) (rev zs)"
      by (auto simp: plainName_def)
    with snoc.IH [OF all] show ?thesis by simp
  qed
qed

lemma cleanStack_no_slash: "cleanStack rooted out \<Longrightarrow> \<forall>e \<in> set out. e \<noteq> [] \<and> CHR ''/'' \<notin> set e"
  by (induction out) (auto simp: plainName_def list_all_iff split: if_splits)

lemma joinWith_hd:
  "hd es \<noteq> [] \<Longrightarrow> es \<noteq> [] \<longrightarrow> joinWith sep es \<noteq> [] \<and> hd (joinWith sep es) = hd (hd es)"
proof (cases es)
  case Nil
  then show ?thesis by simp
next
  case (Cons e fs)
  assume "hd es \<noteq> []"
  with Cons have "e \<noteq> []" by simp
  with Cons show ?thesis by (cases fs) auto
qed

lemma cleanPath_join_name:
  assumes "p \<noteq> []"
    and "cleanElems (hd p = CHR ''/'') [] (splitOn CHR ''/'' p) \<noteq> []"
    and "plainName n"
  shows "cleanPath (cleanPath p @ ''/'' @ n) = cleanPath p @ ''/'' @ n"
proof -
  let ?rooted = "hd p = CHR ''/''"
  let ?es = "cleanElems ?rooted [] (splitOn CHR ''/'' p)"
  let ?J = "joinWith ''/'' ?es"
  have "cleanStack ?rooted []" by simp
  from cleanElems_cleanStack [OF this, of "splitOn CHR ''/'' p"] splitOn_no_sep
  obtain out where o: "?es = rev out" and c: "cleanStack ?rooted out" by blast
  from cleanStack_no_slash [OF c] o
  have ns: "\<forall>e \<in> set ?es. e \<noteq> [] \<and> CHR ''/'' \<notin> set e" by simp
  then have h: "hd ?es \<noteq> []" "CHR ''/'' \<notin> set (hd ?es)" using assms(2) by auto
  from joinWith_hd [OF h(1)] assms(2) have j: "?J \<noteq> []" "hd ?J = hd (hd ?es)" by auto
  have hj: "hd ?J \<noteq> CHR ''/''" using j(2) h by (metis hd_in_set)
  have R: "cleanPath p = (if ?rooted then CHR ''/'' # ?J else ?J)"
  proof (cases ?rooted)
    case True
    with assms(1) show ?thesis by (simp add: cleanPath_def Let_def)
  next
    case False
    with assms(1) j(1) show ?thesis by (simp add: cleanPath_def Let_def)
  qed
  have id: "cleanElems ?rooted [] ?es = ?es"
    using cleanElems_stack [of ?rooted out "[]"] c o by simp
  have n: "CHR ''/'' \<notin> set n" "n \<noteq> []" "n \<noteq> ''.''" "n \<noteq> ''..''"
    using assms(3) by (auto simp: plainName_def)
  have sp: "splitOn CHR ''/'' (?J @ CHR ''/'' # n) = ?es @ [n]"
    using splitOn_joinWith [OF assms(2), of "CHR ''/''"] ns n(1)
    by (simp add: splitOn_append_sep splitOn_plain)
  have ce: "cleanElems ?rooted [] (?es @ [n]) = ?es @ [n]"
    using n by (simp add: cleanElems_append [of _ "[]" ?es] id)
  have jn: "joinWith ''/'' (?es @ [n]) = ?J @ ''/'' @ n"
    using joinWith_snoc [OF assms(2)] by simp
  show ?thesis
  proof (cases ?rooted)
    case True
    have "splitOn CHR ''/'' (CHR ''/'' # ?J @ CHR ''/'' # n) = [] # ?es @ [n]"
      using sp by simp
    then have "cleanPath (CHR ''/'' # ?J @ CHR ''/'' # n) = CHR ''/'' # ?J @ CHR ''/'' # n"
      using ce jn True by (simp add: cleanPath_def Let_def)
    with True R show ?thesis by simp
  next
    case False
    have "hd (?J @ CHR ''/'' # n) \<noteq> CHR ''/''" using j hj by simp
    then have "cleanPath (?J @ CHR ''/'' # n) = ?J @ CHR ''/'' # n"
      using sp ce jn j False by (simp add: cleanPath_def Let_def)
    with False R show ?thesis by simp
  qed
qed

lemma cleanElems_last_plain:
  assumes "plainName e"
  shows "cleanElems rooted [] (splitOn CHR ''/'' (a @ CHR ''/'' # e)) \<noteq> []"
proof -
  have "splitOn CHR ''/'' (a @ CHR ''/'' # e) = splitOn CHR ''/'' a @ [e]"
    using assms by (simp add: splitOn_append_sep splitOn_plain plainName_def)
  then show ?thesis
    using assms by (simp add: cleanElems_append [of _ "[]"] plainName_def)
qed

lemma joinPath_root_name:
  assumes "plainName e" and "plainName n"
  shows "joinPath [joinPath [m, ''textsecure'', e], n] = joinPath [m, ''textsecure'', e] @ ''/'' @ n"
proof -
  let ?a = "if m = [] then ''textsecure'' else m @ ''/textsecure''"
  have e: "e \<noteq> []" and n: "n \<noteq> []" using assms by (simp_all add: plainName_def)
  have r: "joinPath [m, ''textsecure'', e] = cleanPath (?a @ CHR ''/'' # e)"
    using e by (simp add: joinPath_def Let_def)
  have "cleanPath (cleanPath (?a @ CHR ''/'' # e) @ ''/'' @ n) = cleanPath (?a @ CHR ''/'' # e) @ ''/'' @ n"
    by (rule cleanPath_join_name [OF _ cleanElems_last_plain [OF assms(1)] assms(2)]) simp
  moreover have "joinPath [cleanPath (?a @ CHR ''/'' # e), n]
      = cleanPath (cleanPath (?a @ CHR ''/'' # e) @ ''/'' @ n)"
    using n cleanPath_nonempty [of "?a @ CHR ''/'' # e"] by (simp add: joinPath_def Let_def)
  ultimately show ?thesis unfolding r by simp
qed

lemma contactsPath_join:
  "plainName n \<Longrightarrow> joinPath [contactsPath env, n] = contactsPath env @ ''/'' @ n"
  unfolding contactsPath_def by (rule joinPath_root_name) (simp_all add: plainName_def)

lemma attachmentsPath_join:
  "plainName n \<Longrightarrow> joinPath [attachmentsPath env, n] = attachmentsPath env @ ''/'' @ n"
  unfolding attachmentsPath_def by (rule joinPath_root_name) (simp_all add: plainName_def)

subsection \<open>Registration\<close>

text \<open>
  C3. A run of \<^verbatim>\<open>Activate\<close> in registration mode (not \<^verbatim>\<open>postAuth\<close>, the flag \<^verbatim>\<open>-r\<close> set)
  that gets past the unlocking of the volume and finds the last resort key ends in
  \<^verbatim>\<open>log.Fatalf\<close> with the registered number (the content of the number file) and the
  storage path. It makes no call that creates, opens for writing or writes a file: the
  disk is the disk the unlocking left, locked again by the volume manager outside test
  mode.
\<close>

theorem Activate_already_registered:
  assumes "registerFlag env"
    and "auth = (if testMode env then (None, fs w)
                 else authenticate env (volumeLine env) (passwordLine env)
                        (disposeLine env = ''YES'') (fs w))"
    and "fst auth = None"
    and "nodeAt (snd auth) (lastResortKey env) \<noteq> None"
  shows "\<exists>n w'. Activate env w t False = (Fatal (AlreadyRegistered n (storagePath env)), t, w')
           \<and> (\<forall>c. nodeAt (snd auth) (numberPath env) = Some (File c) \<longrightarrow> n = c)
           \<and> fs w' = (if testMode env then fs w else luksClose env (luksUnmount env (snd auth)))
           \<and> \<not> list_ex writesDisk (newCalls w w')"
proof (cases "testMode env")
  case True
  with assms show ?thesis
    by (auto simp: Activate_def needsRegistration_def osStat_def registeredNumber_def
        osOpen_def ioutilReadAll_def lock_def newCalls_def Let_def
        split: option.splits node.splits)
next
  case False
  with assms show ?thesis
    by (auto simp: Activate_def needsRegistration_def osStat_def registeredNumber_def
        osOpen_def ioutilReadAll_def lock_def newCalls_def Let_def
        split: option.splits node.splits)
qed

lemma example_lastResortKey:
  "lastResortKey exampleEnv = ''/mnt/keys/textsecure/private/prekeys/016777215''"
  by (simp add: lastResortKey_def example_storagePath joinPath_def cleanPath_def)

lemma example_numberPath: "numberPath exampleEnv = ''/mnt/keys/textsecure/private/number''"
  by (simp add: numberPath_def example_storagePath joinPath_def cleanPath_def)

theorem Activate_already_registered_witness:
  "registerFlag exampleEnv
   \<and> nodeAt (fs exampleWorld) (lastResortKey exampleEnv) = Some (File ''k'')
   \<and> (\<exists>w'. Activate exampleEnv exampleWorld \<lparr>number = [], client = False\<rparr> False
             = (Fatal (AlreadyRegistered ''+15551234'' ''/mnt/keys/textsecure/private''),
                \<lparr>number = [], client = False\<rparr>, w')
           \<and> fs w' = fs exampleWorld)"
proof -
  have 1: "registerFlag exampleEnv" and m: "testMode exampleEnv"
    by (simp_all add: exampleEnv_def)
  have 2: "(None, fs exampleWorld)
           = (if testMode exampleEnv then (None, fs exampleWorld)
              else authenticate exampleEnv (volumeLine exampleEnv) (passwordLine exampleEnv)
                     (disposeLine exampleEnv = ''YES'') (fs exampleWorld))"
    using m by simp
  have k: "nodeAt (fs exampleWorld) (lastResortKey exampleEnv) = Some (File ''k'')"
    by (simp add: example_lastResortKey exampleWorld_def exampleDisk_def nodeAt_def)
  have n: "nodeAt (fs exampleWorld) (numberPath exampleEnv) = Some (File ''+15551234'')"
    by (simp add: example_numberPath exampleWorld_def exampleDisk_def nodeAt_def)
  have 3: "fst (None :: error option, fs exampleWorld) = None" by simp
  have 4: "nodeAt (snd (None :: error option, fs exampleWorld)) (lastResortKey exampleEnv) \<noteq> None"
    using k by simp
  show ?thesis
    using 1 k n m Activate_already_registered [OF 1 2 3 4, of "\<lparr>number = [], client = False\<rparr>"]
    by (auto simp: example_storagePath)
qed

subsection \<open>Resolving a number\<close>

lemma map_of_putNode: "map_of (putNode p n disk) = (map_of disk)(p \<mapsto> n)"
  by (induction disk) (auto simp: fun_eq_iff)

lemma nodeAt_putNode:
  "nodeAt (putNode p n disk) q
   = (if q = ''/'' then Some Dir else if q = p then Some n else nodeAt disk q)"
  by (simp add: nodeAt_def map_of_putNode)

lemma nodeAt_root [simp]: "nodeAt disk ''/'' = Some Dir"
  by (simp add: nodeAt_def)

lemma grown_refl: "grown disk disk"
  by (simp add: grown_def)

lemma grown_trans: "grown a b \<Longrightarrow> grown b c \<Longrightarrow> grown a c"
  unfolding grown_def
proof
  fix q
  assume ab: "\<forall>q. nodeAt b q = nodeAt a q \<or> nodeAt a q = None \<and> nodeAt b q = Some Dir"
    and bc: "\<forall>q. nodeAt c q = nodeAt b q \<or> nodeAt b q = None \<and> nodeAt c q = Some Dir"
  from ab have "nodeAt b q = nodeAt a q \<or> nodeAt a q = None \<and> nodeAt b q = Some Dir" ..
  moreover from bc have "nodeAt c q = nodeAt b q \<or> nodeAt b q = None \<and> nodeAt c q = Some Dir" ..
  ultimately show "nodeAt c q = nodeAt a q \<or> nodeAt a q = None \<and> nodeAt c q = Some Dir"
    by auto
qed

lemma mkdir_grown:
  assumes "mkdir disk p = Inr disk'"
  shows "nodeAt disk' p = Some Dir \<and> grown disk disk'"
  using assms
  by (auto simp: mkdir_def nodeAt_putNode grown_def split: if_splits)

lemma mkdirAll_grown:
  "mkdirAll disk p = Inr disk' \<Longrightarrow> nodeAt disk' p = Some Dir \<and> grown disk disk'"
proof (induction disk p arbitrary: disk' rule: mkdirAll.induct)
  case (1 disk p)
  show ?case
  proof (cases "nodeAt disk p")
    case (Some n)
    with "1.prems" show ?thesis
      by (cases n) (auto simp: grown_refl mkdirAll.simps [of disk p])
  next
    case None
    show ?thesis
    proof (cases "1 < elemStart p")
      case False
      with None "1.prems" have "mkdir disk p = Inr disk'"
        by (simp add: mkdirAll.simps [of disk p])
      then show ?thesis by (rule mkdir_grown)
    next
      case True
      with None "1.prems" obtain mid where m: "mkdirAll disk (take (elemStart p - 1) p) = Inr mid"
        and d: "mkdir mid p = Inr disk'"
        by (auto simp: mkdirAll.simps [of disk p] split: sum.splits)
      from "1.IH" [OF None True m] have "grown disk mid" by simp
      with mkdir_grown [OF d] show ?thesis by (auto intro: grown_trans)
    qed
  qed
qed

lemma grown_files:
  assumes "grown disk disk'"
  shows "(nodeAt disk' q = Some (File c)) = (nodeAt disk q = Some (File c))"
proof -
  from assms have "nodeAt disk' q = nodeAt disk q \<or> nodeAt disk q = None \<and> nodeAt disk' q = Some Dir"
    by (simp add: grown_def)
  then show ?thesis by auto
qed


lemma contactsPath_nonempty: "contactsPath env \<noteq> []"
  by (simp add: contactsPath_def joinPath_def cleanPath_nonempty Let_def)

lemma digits_chars: "list_all isDigit ds \<Longrightarrow> set ds \<subseteq> set ''0123456789''"
  by (induction ds) (auto simp: isDigit_def)

lemma numberPattern_chars: "numberPattern n \<Longrightarrow> set n \<subseteq> set ''+0123456789''"
  by (auto simp: numberPattern_def digits1_def split: option.splits
      dest!: stripPrefix_Some digits_chars)

lemma globDir_pattern:
  assumes "root \<noteq> []" and "CHR ''/'' \<notin> set f"
  shows "globDir (root @ ''/'' @ f) = root"
proof -
  have "dropWhile (\<lambda>c. c \<noteq> CHR ''/'') (rev f @ CHR ''/'' # rev root) = CHR ''/'' # rev root"
    using assms(2) by (simp add: dropWhile_append)
  then have "dropWhileEnd (\<lambda>c. c \<noteq> CHR ''/'') (root @ ''/'' @ f) = root @ ''/''"
    by (simp add: dropWhileEnd_def)
  then show ?thesis
    using assms(1) by (simp add: globDir_def Let_def)
qed

lemma globFile_pattern:
  assumes "CHR ''/'' \<notin> set f"
  shows "globFile (root @ ''/'' @ f) = f"
proof -
  have "takeWhile (\<lambda>c. c \<noteq> CHR ''/'') (rev f @ CHR ''/'' # rev root) = rev f"
    using assms by (simp add: takeWhile_append)
  then show ?thesis by (simp add: globFile_def)
qed

lemma hasSuffix_iff: "hasSuffix s p = (\<exists>r. s = r @ p)"
proof
  assume "hasSuffix s p"
  then obtain r where "stripPrefix (rev p) (rev s) = Some r"
    by (auto simp: hasSuffix_def stripSuffix_def)
  from stripPrefix_Some [OF this] have "s = rev r @ p"
    by (metis rev_append rev_rev_ident)
  then show "\<exists>r. s = r @ p" ..
next
  assume "\<exists>r. s = r @ p"
  then show "hasSuffix s p"
    by (auto simp: hasSuffix_def stripSuffix_append)
qed

lemma globMatch_literal:
  "CHR ''*'' \<notin> set lit \<Longrightarrow> globMatch lit s = (s = lit)"
proof (induction lit arbitrary: s)
  case Nil
  then show ?case by (cases s) auto
next
  case (Cons a lit)
  then show ?case by (cases s) auto
qed

lemma globMatch_star:
  assumes "CHR ''*'' \<notin> set lit" and "CHR ''/'' \<notin> set n"
  shows "globMatch (CHR ''*'' # lit) n = hasSuffix n lit"
  using assms(2)
proof (induction n)
  case Nil
  then show ?case
    using globMatch_literal [OF assms(1), of "[]"] by (auto simp: hasSuffix_iff)
next
  case (Cons c cs)
  then have "globMatch (CHR ''*'' # lit) cs = hasSuffix cs lit" by simp
  then show ?case
    using Cons.prems globMatch_literal [OF assms(1), of "c # cs"]
    by (auto simp: hasSuffix_iff Cons_eq_append_conv)
qed

lemma dirNames_plain: "n \<in> set (dirNames disk d) \<Longrightarrow> n \<noteq> [] \<and> CHR ''/'' \<notin> set n"
  by (auto simp: dirNames_def List.map_filter_def split: option.splits if_splits)

lemma glob_contacts:
  assumes "numberPattern num" and "\<not> hasMeta (contactsPath env)"
  shows "glob env disk (contactsPath env @ ''/'' @ ''*'' @ num @ ''.'' @ contactExt)
         = (if nodeAt disk (contactsPath env) \<noteq> Some Dir then Inr []
            else Inr (map (\<lambda>n. joinPath [contactsPath env, n])
                       (filter (\<lambda>n. hasSuffix n (num @ ''.'' @ contactExt))
                          (sort (dirNames disk (contactsPath env))))))"
proof -
  let ?f = "''*'' @ num @ ''.'' @ contactExt"
  have c: "set num \<subseteq> set ''+0123456789''"
    using assms(1) by (rule numberPattern_chars)
  then have s: "CHR ''/'' \<notin> set ?f" by (auto simp: contactExt_def)
  have d: "globDir (contactsPath env @ ''/'' @ ?f) = contactsPath env"
    using globDir_pattern [OF contactsPath_nonempty s] .
  have f: "globFile (contactsPath env @ ''/'' @ ?f) = ?f"
    using globFile_pattern [OF s] .
  have b: "CHR ''['' \<notin> set ?f" "CHR 0x5C \<notin> set ?f" "CHR ''?'' \<notin> set ?f"
    using c by (auto simp: contactExt_def)
  have m: "hasMeta (contactsPath env @ ''/'' @ ?f)"
    by (simp add: hasMeta_def)
  have l: "CHR ''*'' \<notin> set (num @ ''.'' @ contactExt)"
    using c by (auto simp: contactExt_def)
  have "filter (globMatch ?f) (sort (dirNames disk (contactsPath env)))
        = filter (\<lambda>n. hasSuffix n (num @ ''.'' @ contactExt)) (sort (dirNames disk (contactsPath env)))"
  proof (rule filter_cong [OF refl])
    fix n assume "n \<in> set (sort (dirNames disk (contactsPath env)))"
    then have "CHR ''/'' \<notin> set n" using dirNames_plain [of n] by simp
    from globMatch_star [OF l this]
    show "globMatch ?f n = hasSuffix n (num @ ''.'' @ contactExt)" by simp
  qed
  then show ?thesis
    using assms(2) b m unfolding glob_def d f by simp
qed


lemma putNode_new: "map_of disk p = None \<Longrightarrow> putNode p n disk = disk @ [(p, n)]"
  by (induction disk) (auto split: if_splits)

lemma mkdir_added:
  assumes "mkdir disk p = Inr disk'"
  shows "disk' = disk @ [(p, Dir)]"
  using assms by (auto simp: mkdir_def nodeAt_def putNode_new split: if_splits)

lemma mkdirAll_added:
  "mkdirAll disk p = Inr disk' \<Longrightarrow>
   \<exists>added. disk' = disk @ added \<and> (\<forall>e \<in> set added. \<exists>k. fst e = take k p)"
proof (induction disk p arbitrary: disk' rule: mkdirAll.induct)
  case (1 disk p)
  show ?case
  proof (cases "nodeAt disk p")
    case (Some n)
    with "1.prems" show ?thesis
      by (cases n) (auto simp: mkdirAll.simps [of disk p])
  next
    case None
    have self: "\<exists>k. p = take k p" by (rule exI [of _ "length p"]) simp
    show ?thesis
    proof (cases "1 < elemStart p")
      case False
      with None "1.prems" have "mkdir disk p = Inr disk'"
        by (simp add: mkdirAll.simps [of disk p])
      from mkdir_added [OF this] self show ?thesis by auto
    next
      case True
      with None "1.prems" obtain mid where m: "mkdirAll disk (take (elemStart p - 1) p) = Inr mid"
        and d: "mkdir mid p = Inr disk'"
        by (auto simp: mkdirAll.simps [of disk p] split: sum.splits)
      from "1.IH" [OF None True m] obtain added where a: "mid = disk @ added"
        and k: "\<forall>e \<in> set added. \<exists>k. fst e = take k (take (elemStart p - 1) p)"
        by auto
      have "\<forall>e \<in> set (added @ [(p, Dir)]). \<exists>k. fst e = take k p"
      proof
        fix e assume "e \<in> set (added @ [(p, Dir)])"
        then consider "e \<in> set added" | "e = (p, Dir)" by auto
        then show "\<exists>k. fst e = take k p"
        proof cases
          case 1
          with k obtain j where "fst e = take j (take (elemStart p - 1) p)" by auto
          then have "fst e = take (min j (elemStart p - 1)) p" by simp
          then show ?thesis ..
        next
          case 2
          with self show ?thesis by simp
        qed
      qed
      moreover have "disk' = disk @ added @ [(p, Dir)]"
        using mkdir_added [OF d] a by simp
      ultimately show ?thesis by blast
    qed
  qed
qed

lemma mkdirAll_dirNames:
  assumes "mkdirAll disk p = Inr disk'"
  shows "set (dirNames disk' p) = set (dirNames disk p)"
proof -
  let ?d = "if p = ''/'' then p else p @ ''/''"
  let ?F = "\<lambda>(q, n). case stripPrefix ?d q of
                   None \<Rightarrow> None
                 | Some name \<Rightarrow> if name \<noteq> [] \<and> CHR ''/'' \<notin> set name then Some name else None"
  from mkdirAll_added [OF assms] obtain added where a: "disk' = disk @ added"
    and k: "\<forall>e \<in> set added. \<exists>k. fst e = take k p"
    by auto
  have "?F e = None" if "e \<in> set added" for e
  proof (cases "stripPrefix ?d (fst e)")
    case None
    then show ?thesis by (simp add: case_prod_unfold)
  next
    case (Some r)
    from k that obtain j where j: "fst e = take j p" by auto
    then have l: "length (fst e) \<le> length p" by simp
    from stripPrefix_Some [OF Some] have "fst e = ?d @ r" .
    with l have "r = []" by (auto split: if_splits)
    with Some show ?thesis by (simp add: case_prod_unfold)
  qed
  then have "List.map_filter ?F added = []"
    by (auto simp: List.map_filter_def filter_empty_conv)
  then show ?thesis
    by (simp add: dirNames_def a List.map_filter_def)
qed

text \<open>
  C7. For a number of the canonical pattern, where the contacts root can be made (it
  exists, or \<^verbatim>\<open>os.MkdirAll\<close> creates it) and holds no entry whose name ends in the number
  and the extension, \<^verbatim>\<open>getContact\<close> returns the record of the unknown contact: the name
  \<^verbatim>\<open>Unknown\<close>, the number, the history path \<^verbatim>\<open><contactsPath>/Unknown <number>.<ext>\<close>
  and the attachment directory \<^verbatim>\<open><attachmentsPath>/Unknown <number>\<close>. The disk afterwards has every node it had, and beyond them only
  new directories: the history file is not created, and the only call that writes is
  \<^verbatim>\<open>os.MkdirAll\<close> of the contacts root. The contacts root is taken to hold no glob
  metacharacter.
\<close>

theorem getContact_unknown:
  assumes "numberPattern num"
    and "\<not> hasMeta (contactsPath env)"
    and "mkdirAll (fs w) (contactsPath env) = Inr disk"
    and "\<forall>n \<in> set (dirNames (fs w) (contactsPath env)). \<not> hasSuffix n (num @ ''.'' @ contactExt)"
  shows "\<exists>w'. getContact env w num
               = (Inr \<lparr>Name = ''Unknown'', Number = num,
                       HistoryPath = contactsPath env @ ''/Unknown '' @ num @ ''.'' @ contactExt,
                       AttachmentDir = attachmentsPath env @ ''/Unknown '' @ num\<rparr>, w')
           \<and> fs w' = disk \<and> grown (fs w) disk
           \<and> (\<forall>p c. (nodeAt (fs w') p = Some (File c)) = (nodeAt (fs w) p = Some (File c)))
           \<and> filter writesDisk (newCalls w w') = [OsMkdirAll (contactsPath env)]"
proof -
  have g: "grown (fs w) disk"
    using mkdirAll_grown [OF assms(3)] by simp
  have "filter (\<lambda>n. hasSuffix n (num @ ''.'' @ contactExt)) (sort (dirNames disk (contactsPath env))) = []"
    using assms(4) mkdirAll_dirNames [OF assms(3)] by (simp add: filter_empty_conv)
  then have "glob env disk (contactsPath env @ ''/'' @ ''*'' @ num @ ''.'' @ contactExt) = Inr []"
    using glob_contacts [OF assms(1,2), of disk] by simp
  moreover have "plainName (''Unknown '' @ num @ ''.'' @ contactExt)"
    and "plainName (''Unknown '' @ num)"
    using numberPattern_no_slash [OF assms(1)] by (simp_all add: plainName_def contactExt_def)
  then have "joinPath [contactsPath env, ''Unknown '' @ num @ ''.'' @ contactExt]
             = contactsPath env @ ''/Unknown '' @ num @ ''.'' @ contactExt"
    and "joinPath [attachmentsPath env, ''Unknown '' @ num]
         = attachmentsPath env @ ''/Unknown '' @ num"
    using contactsPath_join [of _ env] attachmentsPath_join [of _ env] by simp_all
  ultimately show ?thesis
    using assms(1,3) g grown_files [OF g]
    by (simp add: getContact_def osMkdirAll_def filepathGlob_def newCalls_def)
qed

theorem getContact_unknown_witness:
  "numberPattern ''+15550009''
   \<and> filter (\<lambda>n. hasSuffix n (''+15550009'' @ ''.'' @ contactExt))
         (dirNames (fs exampleWorld) (contactsPath exampleEnv)) = []
   \<and> (\<exists>w'. getContact exampleEnv exampleWorld ''+15550009''
             = (Inr \<lparr>Name = ''Unknown'', Number = ''+15550009'',
                     HistoryPath = ''/mnt/textsecure/contacts/Unknown +15550009.textsecure'',
                     AttachmentDir = ''/mnt/textsecure/attachments/Unknown +15550009''\<rparr>, w')
           \<and> fs w' = fs exampleWorld)"
proof -
  have 1: "numberPattern ''+15550009''"
    by (simp add: numberPattern_def digits1_def isDigit_def)
  have 2: "\<not> hasMeta (contactsPath exampleEnv)"
    by (simp add: example_contactsPath hasMeta_def)
  have 3: "mkdirAll (fs exampleWorld) (contactsPath exampleEnv) = Inr (fs exampleWorld)"
    by (simp add: example_contactsPath exampleWorld_def exampleDisk_def nodeAt_def
        mkdirAll.simps [of _ "''/mnt/textsecure/contacts''"])
  have 4: "\<forall>n \<in> set (dirNames (fs exampleWorld) (contactsPath exampleEnv)).
             \<not> hasSuffix n (''+15550009'' @ ''.'' @ contactExt)"
    by code_simp
  have 5: "contactsPath exampleEnv @ ''/Unknown '' @ ''+15550009'' @ ''.'' @ contactExt
           = ''/mnt/textsecure/contacts/Unknown +15550009.textsecure''"
    by (simp add: example_contactsPath contactExt_def)
  have 6: "attachmentsPath exampleEnv @ ''/Unknown '' @ ''+15550009''
           = ''/mnt/textsecure/attachments/Unknown +15550009''"
    by (simp add: example_attachmentsPath)
  have 7: "filter (\<lambda>n. hasSuffix n (''+15550009'' @ ''.'' @ contactExt))
             (dirNames (fs exampleWorld) (contactsPath exampleEnv)) = []"
    using 4 by (simp add: filter_empty_conv)
  show ?thesis
    using 1 7 getContact_unknown [OF 1 2 3 4] unfolding 5 6 by blast
qed

lemma sort_head_Min:
  fixes ys :: "string list"
  assumes "ys \<noteq> []"
  shows "\<exists>rest. sort ys = Min (set ys) # rest"
proof -
  from assms have "sort ys \<noteq> []" by (metis length_0_conv length_sort)
  then obtain x rest where s: "sort ys = x # rest" by (cases "sort ys") auto
  have "sorted (x # rest)" using sorted_sort [of ys] s by simp
  then have le: "\<forall>y \<in> set (x # rest). x \<le> y" by auto
  have e: "set (x # rest) = set ys" using set_sort [of "\<lambda>x. x" ys] s by simp
  have "Min (set ys) = x"
  proof (rule Min_eqI)
    show "finite (set ys)" by simp
    show "x \<le> y" if "y \<in> set ys" for y using le e that by auto
    show "x \<in> set ys" using e by auto
  qed
  with s show ?thesis by simp
qed

lemma parseContact_HistoryPath: "parseContact env p = Inr c \<Longrightarrow> HistoryPath c = p"
  by (auto simp: parseContact_def split: option.splits sum.splits)

lemma append_le_append: "(r @ a \<le> r @ b) = (a \<le> b)" for r a b :: string
  by (induction r) auto

lemma Min_paths:
  fixes ns :: "string list"
  assumes "ns \<noteq> []"
  shows "Min (set (map (\<lambda>n. r @ n) ns)) = r @ Min (set ns)"
proof -
  have "mono (\<lambda>n. r @ n)" by (rule monoI) (simp add: append_le_append)
  from mono_Min_commute [OF this, of "set ns"] assms show ?thesis by simp
qed

lemma suffix_plainName:
  assumes "n \<in> set (dirNames disk d)" and "hasSuffix n (num @ ''.'' @ contactExt)"
  shows "plainName n"
proof -
  from assms(2) obtain r where "n = r @ num @ ''.'' @ contactExt"
    by (auto simp: hasSuffix_iff)
  then have "length n \<ge> 11" by (simp add: contactExt_def)
  then have "n \<noteq> ''.''" and "n \<noteq> ''..''" by auto
  with dirNames_plain [OF assms(1)] show ?thesis by (simp add: plainName_def)
qed

text \<open>
  C10. For a number of the canonical pattern, where the contacts root can be made and
  holds entries whose names end in the number and the extension, \<^verbatim>\<open>getContact\<close> is
  \<^verbatim>\<open>parseContact\<close> of one path: the least, in the order of byte strings, of the paths
  \<^verbatim>\<open><contactsPath>/<name>\<close> of those entries. The other matches have no part in the
  result. A record that is returned has that path as its history path. The contacts
  root is taken to hold no glob metacharacter.
\<close>

theorem getContact_first_match:
  assumes "numberPattern num"
    and "\<not> hasMeta (contactsPath env)"
    and "mkdirAll (fs w) (contactsPath env) = Inr disk"
    and "matches = filter (\<lambda>n. hasSuffix n (num @ ''.'' @ contactExt))
                     (dirNames (fs w) (contactsPath env))"
    and "matches \<noteq> []"
    and "paths = map (\<lambda>n. contactsPath env @ ''/'' @ n) matches"
  shows "\<exists>w'. getContact env w num = (parseContact env (Min (set paths)), w')
           \<and> fs w' = disk
           \<and> (\<forall>c. fst (getContact env w num) = Inr c \<longrightarrow> HistoryPath c = Min (set paths))"
proof -
  let ?P = "\<lambda>n. hasSuffix n (num @ ''.'' @ contactExt)"
  let ?ys = "filter ?P (dirNames disk (contactsPath env))"
  have e: "set ?ys = set matches"
    using mkdirAll_dirNames [OF assms(3)] assms(4) by simp
  have "set ?ys \<noteq> {}" unfolding e using assms(5) by simp
  then have "?ys \<noteq> []" by (metis set_empty)
  from sort_head_Min [OF this] e obtain rest where "sort ?ys = Min (set matches) # rest"
    by auto
  then have "filter ?P (sort (dirNames disk (contactsPath env))) = Min (set matches) # rest"
    by (simp add: filter_sort)
  moreover have "nodeAt disk (contactsPath env) = Some Dir"
    using mkdirAll_grown [OF assms(3)] by simp
  ultimately have g: "glob env disk (contactsPath env @ ''/'' @ ''*'' @ num @ ''.'' @ contactExt)
      = Inr (joinPath [contactsPath env, Min (set matches)]
             # map (\<lambda>n. joinPath [contactsPath env, n]) rest)"
    using glob_contacts [OF assms(1,2), of disk] by simp
  have "Min (set matches) \<in> set matches"
    using assms(5) by (simp add: Min_in)
  then have "plainName (Min (set matches))"
    using assms(4) suffix_plainName [of "Min (set matches)" "fs w" "contactsPath env" num] by simp
  then have "joinPath [contactsPath env, Min (set matches)]
             = contactsPath env @ ''/'' @ Min (set matches)"
    by (rule contactsPath_join)
  also have "\<dots> = Min (set paths)"
    unfolding assms(6) using Min_paths [OF assms(5), of "contactsPath env @ ''/''"] by simp
  finally have "joinPath [contactsPath env, Min (set matches)] = Min (set paths)" .
  with g show ?thesis
    using assms(1,3)
    by (auto simp: getContact_def osMkdirAll_def filepathGlob_def
        dest: parseContact_HistoryPath)
qed

theorem getContact_first_match_witness:
  "filter (\<lambda>n. hasSuffix n (''+15550001'' @ ''.'' @ contactExt))
     (dirNames (fs exampleWorld) (contactsPath exampleEnv))
   = [''Alice +15550001.textsecure'', ''Al +15550001.textsecure'']
   \<and> (\<exists>w'. getContact exampleEnv exampleWorld ''+15550001''
             = (Inr \<lparr>Name = ''Al'', Number = ''+15550001'',
                     HistoryPath = ''/mnt/textsecure/contacts/Al +15550001.textsecure'',
                     AttachmentDir = ''/mnt/textsecure/attachments/Al +15550001''\<rparr>, w'))"
proof -
  have 1: "numberPattern ''+15550001''"
    by (simp add: numberPattern_def digits1_def isDigit_def)
  have 2: "\<not> hasMeta (contactsPath exampleEnv)"
    by (simp add: example_contactsPath hasMeta_def)
  have 3: "mkdirAll (fs exampleWorld) (contactsPath exampleEnv) = Inr (fs exampleWorld)"
    by (simp add: example_contactsPath exampleWorld_def exampleDisk_def nodeAt_def
        mkdirAll.simps [of _ "''/mnt/textsecure/contacts''"])
  have 4: "[''Alice +15550001.textsecure'', ''Al +15550001.textsecure'']
           = filter (\<lambda>n. hasSuffix n (''+15550001'' @ ''.'' @ contactExt))
               (dirNames (fs exampleWorld) (contactsPath exampleEnv))"
    by code_simp
  have 5: "[''Alice +15550001.textsecure'', ''Al +15550001.textsecure''] \<noteq> []" by simp
  have 7: "map (\<lambda>n. contactsPath exampleEnv @ ''/'' @ n)
             [''Alice +15550001.textsecure'', ''Al +15550001.textsecure'']
           = [''/mnt/textsecure/contacts/Alice +15550001.textsecure'',
              ''/mnt/textsecure/contacts/Al +15550001.textsecure'']"
    by (simp add: example_contactsPath)
  have 6: "parseContact exampleEnv
             (Min (set [''/mnt/textsecure/contacts/Alice +15550001.textsecure'',
                        ''/mnt/textsecure/contacts/Al +15550001.textsecure'']))
           = Inr \<lparr>Name = ''Al'', Number = ''+15550001'',
                  HistoryPath = ''/mnt/textsecure/contacts/Al +15550001.textsecure'',
                  AttachmentDir = ''/mnt/textsecure/attachments/Al +15550001''\<rparr>"
    by code_simp
  show ?thesis
    using 4 getContact_first_match [OF 1 2 3 4 5 7 [symmetric]] unfolding 6 by auto
qed

subsection \<open>Inbound messages\<close>



























end
